theory Spec2Isabelle
  imports Complex_Main "HOL-Library.Sublist"
begin

section \<open>Python values, exceptions and effects\<close>

text \<open>
  The module \<^verbatim>\<open>pyolib/opensndctrl.py\<close> is Python 2. A value handed to one of its
  methods is a \<open>pyval\<close>; \<open>type(x) == IntType\<close> holds of \<open>IntV\<close> only (a \<open>bool\<close> and a
  \<open>long\<close> have types of their own). Floats are never computed with in this module, only
  passed on, so a float is represented by the number it denotes.
\<close>

datatype pyval =
    NoneV
  | BoolV bool
  | IntV int
  | LongV int
  | FloatV real
  | StrV string
  | ListV "pyval list"
  | FunV string
  | ObjV string

datatype py_error =
    ValueError
  | KeyError
  | IndexError
  | ZeroDivisionError
  | TypeError
  | SystemExit

text \<open>
  A method that mutates its object yields the object as it is when the call ends
  (normally or by an exception), the lines it printed on standard output, and the
  exception that ended it, if any.
\<close>

datatype 's effect = Effect (after: 's) (printed: "string list") (raised: "py_error option")

definition say :: "string \<Rightarrow> 's effect \<Rightarrow> 's effect" where
  "say line e = Effect (after e) (line # printed e) (raised e)"

text \<open>A method that only reads returns a value and what it printed, or raises.\<close>

datatype 'v reply = Reply (returned: 'v) (said: "string list") | Raises py_error

text \<open>
  A constructor gives an instance, or is ended by an exception after writing lines on
  standard error.
\<close>

datatype 's construction = Instance 's | Refused py_error "string list"

text \<open>
  An error is reported when the call prints a line or ends with an exception handed to
  the caller; it is fatal when that exception is \<open>SystemExit\<close>, raised by \<open>exit()\<close>.
\<close>

definition reported :: "'s effect \<Rightarrow> bool" where
  "reported e = (printed e \<noteq> [] \<or> raised e \<noteq> None)"

definition fatal :: "'s effect \<Rightarrow> bool" where
  "fatal e = (raised e = Some SystemExit)"

subsection \<open>Argument broadcasting\<close>

text \<open>
  An argument documented as "string or list of strings" is a single value or a Python
  list of values.
\<close>

datatype 'a arg = Single 'a | Multi "'a list"

text \<open>
  Modelled from the spec: \<open>convertArgsToLists\<close> and \<open>wrap\<close> are the
  argument-broadcasting glue imported from \<^verbatim>\<open>_core\<close>, whose text is not part of this
  module. \<open>convertArgsToLists\<close> leaves a list as it is and turns any other value
  into the list of that one value (the caller takes the largest length, \<open>lmax\<close>, itself);
  \<open>wrap xs i\<close> is \<open>xs[i % len(xs)]\<close>, so it raises on the empty list.
\<close>

fun convertArgsToLists :: "'a arg \<Rightarrow> 'a list" where
  "convertArgsToLists (Single x) = [x]"
| "convertArgsToLists (Multi xs) = xs"

fun convertValToList :: "pyval \<Rightarrow> pyval list" where
  "convertValToList (ListV xs) = xs"
| "convertValToList v = [v]"

definition wrap :: "'a list \<Rightarrow> nat \<Rightarrow> py_error + 'a" where
  "wrap xs i = (if xs = [] then Inl ZeroDivisionError else Inr (xs ! (i mod length xs)))"

subsection \<open>Python list operations\<close>

text \<open>\<open>xs.index(x)\<close>: the first position of \<open>x\<close>, or \<open>ValueError\<close>.\<close>

fun py_index :: "'a list \<Rightarrow> 'a \<Rightarrow> py_error + nat" where
  "py_index [] x = Inl ValueError"
| "py_index (y # ys) x =
     (if y = x then Inr 0
      else (case py_index ys x of Inl e \<Rightarrow> Inl e | Inr n \<Rightarrow> Inr (Suc n)))"

text \<open>
  The position that an index \<open>i\<close> denotes in a list of \<open>len\<close> elements: Python counts
  a negative index from the end, and an index outside \<open>-len, ..., len - 1\<close> denotes none.
\<close>

definition py_position :: "nat \<Rightarrow> int \<Rightarrow> nat option" where
  "py_position len i =
     (if 0 \<le> i \<and> i < int len then Some (nat i)
      else if i < 0 \<and> - int len \<le> i then Some (nat (int len + i))
      else None)"

text \<open>\<open>xs.pop(i)\<close>: the list without the position \<open>i\<close> denotes, or \<open>IndexError\<close>.\<close>

definition py_pop :: "'a list \<Rightarrow> int \<Rightarrow> py_error + 'a list" where
  "py_pop xs i =
     (case py_position (length xs) i of
        None \<Rightarrow> Inl IndexError
      | Some k \<Rightarrow> Inr (take k xs @ drop (Suc k) xs))"

text \<open>\<open>xs[i]\<close>: the element at the position \<open>i\<close> denotes, or \<open>IndexError\<close>.\<close>

definition py_getitem :: "'a list \<Rightarrow> int \<Rightarrow> py_error + 'a" where
  "py_getitem xs i =
     (case py_position (length xs) i of
        None \<Rightarrow> Inl IndexError
      | Some k \<Rightarrow> Inr (xs ! k))"

text \<open>\<open>xs[a:b]\<close>: negative bounds count from the end, and both are clipped to the list.\<close>

definition slice_bound :: "nat \<Rightarrow> int \<Rightarrow> nat" where
  "slice_bound n x = (if x < 0 then nat (max 0 (int n + x)) else min n (nat x))"

definition py_slice :: "'a list \<Rightarrow> int \<Rightarrow> int \<Rightarrow> 'a list" where
  "py_slice xs a b =
     (let lo = slice_bound (length xs) a; hi = slice_bound (length xs) b
      in take (hi - lo) (drop lo xs))"

text \<open>\<open>range(n)\<close> and \<open>range(a, b)\<close> on Python integers.\<close>

definition py_range :: "int \<Rightarrow> int list" where
  "py_range n = map int [0..<nat n]"

definition py_range2 :: "int \<Rightarrow> int \<Rightarrow> int list" where
  "py_range2 a b = map (\<lambda>k. a + int k) [0..<nat (b - a)]"

text \<open>Running a fallible function over a list stops at the first exception.\<close>

fun traverse :: "('a \<Rightarrow> py_error + 'b) \<Rightarrow> 'a list \<Rightarrow> py_error + 'b list" where
  "traverse f [] = Inr []"
| "traverse f (x # xs) =
     (case f x of
        Inl e \<Rightarrow> Inl e
      | Inr y \<Rightarrow> (case traverse f xs of Inl e \<Rightarrow> Inl e | Inr ys \<Rightarrow> Inr (y # ys)))"

text \<open>The double quote, the apostrophe and the line feed of the printed messages.\<close>

definition dq :: string where
  "dq = [CHR 0x22]"

definition apo :: string where
  "apo = [CHR 0x27]"

definition nl :: string where
  "nl = [CHR 0x0A]"

section \<open>OscSend\<close>

datatype osc_send_base = OscSend_base pyval pyval string string

record osc_send =
  snd_input :: pyval
  snd_in_fader :: pyval
  snd_base_objs :: "osc_send_base list"

definition OscSend_setMul :: "osc_send \<Rightarrow> pyval \<Rightarrow> osc_send effect" where
  "OscSend_setMul self x = Effect self [] None"

definition OscSend_setAdd :: "osc_send \<Rightarrow> pyval \<Rightarrow> osc_send effect" where
  "OscSend_setAdd self x = Effect self [] None"

section \<open>The C-level receiver\<close>

text \<open>
  \<open>OscReceiver_base\<close> and \<open>OscListReceiver_base\<close> are extension types whose text
  is not part of this module. The module only constructs them and calls their methods, so
  the receiver is represented by the calls made on it, oldest first.
\<close>

datatype receiver_call =
    Construct_call int "string list" "int option"
  | AddAddress_call string
  | DelAddress_call "string list"
  | SetValue_call string pyval

subsection \<open>Printed messages\<close>

definition port_msg :: "string \<Rightarrow> string" where
  "port_msg cls =
     ''TypeError: '' @ dq @ ''port'' @ dq @ '' argument of '' @ cls @ '' must be an integer.'' @ nl"

definition num_msg :: "string \<Rightarrow> string" where
  "num_msg cls =
     ''TypeError: '' @ dq @ ''num'' @ dq @ '' argument of '' @ cls @ '' must be an integer.'' @ nl"

definition function_msg :: "string \<Rightarrow> string" where
  "function_msg cls =
     ''TypeError: '' @ dq @ ''function'' @ dq @ '' argument of '' @ cls @ '' must be callable.'' @ nl"

definition illegal_address_msg :: "string \<Rightarrow> string \<Rightarrow> string" where
  "illegal_address_msg cls p =
     ''Error: '' @ cls @ ''.setValue, Illegal address '' @ dq @ p @ dq"

definition too_large_msg :: string where
  "too_large_msg = apo @ ''i'' @ apo @ '' too large!''"

definition length_msg :: string where
  "length_msg =
     ''Error: OscListReceive.setValue, value must be of the same length as the `num` attribute.''"

text \<open>The key of \<open>__getitem__\<close>: a string (\<open>type(i) == type('')\<close>) or an integer.\<close>

datatype key = Name string | Ordinal int

section \<open>OscReceive\<close>

record osc_receive_base =
  rb_address :: string
  rb_mul :: pyval
  rb_add :: pyval

record osc_receive =
  r_mul :: pyval
  r_add :: pyval
  r_address :: "string list"
  r_mainReceiver :: "receiver_call list"
  r_base_objs :: "osc_receive_base list"

definition OscReceive_base :: "string \<Rightarrow> pyval list \<Rightarrow> pyval list \<Rightarrow> nat \<Rightarrow> py_error + osc_receive_base" where
  "OscReceive_base p mul add i =
     (case wrap mul i of
        Inl e \<Rightarrow> Inl e
      | Inr m \<Rightarrow>
          (case wrap add i of
             Inl e \<Rightarrow> Inl e
           | Inr d \<Rightarrow> Inr \<lparr>rb_address = p, rb_mul = m, rb_add = d\<rparr>))"

definition OscReceive_base_at :: "string list \<Rightarrow> pyval list \<Rightarrow> pyval list \<Rightarrow> nat \<Rightarrow> py_error + osc_receive_base" where
  "OscReceive_base_at address mul add i =
     (case wrap address i of Inl e \<Rightarrow> Inl e | Inr p \<Rightarrow> OscReceive_base p mul add i)"

definition OscReceive_init :: "pyval \<Rightarrow> string arg \<Rightarrow> pyval \<Rightarrow> pyval \<Rightarrow> osc_receive construction" where
  "OscReceive_init port address mul add =
     (case port of
        IntV n \<Rightarrow>
          (let address' = convertArgsToLists address;
               mul' = convertValToList mul;
               add' = convertValToList add;
               lmax = max (length address') (max (length mul') (length add'))
           in case traverse (OscReceive_base_at address' mul' add') [0..<lmax] of
                Inl e \<Rightarrow> Refused e []
              | Inr objs \<Rightarrow>
                  Instance \<lparr>r_mul = mul, r_add = add, r_address = address',
                    r_mainReceiver = [Construct_call n address' None], r_base_objs = objs\<rparr>)
      | _ \<Rightarrow> Refused SystemExit [port_msg ''OscReceive''])"

definition OscReceive_getitem :: "osc_receive \<Rightarrow> key \<Rightarrow> osc_receive_base option reply" where
  "OscReceive_getitem self i =
     (case i of
        Name a \<Rightarrow>
          (case py_index (r_address self) a of
             Inl e \<Rightarrow> Raises e
           | Inr n \<Rightarrow>
               (case py_getitem (r_base_objs self) (int n) of
                  Inl e \<Rightarrow> Raises e
                | Inr obj \<Rightarrow> Reply (Some obj) []))
      | Ordinal k \<Rightarrow>
          if k < int (length (r_base_objs self))
          then (case py_getitem (r_base_objs self) k of
                  Inl e \<Rightarrow> Raises e
                | Inr obj \<Rightarrow> Reply (Some obj) [])
          else Reply None [too_large_msg])"

fun OscReceive_addAddress_loop ::
  "(nat \<times> string) list \<Rightarrow> pyval list \<Rightarrow> pyval list \<Rightarrow> osc_receive \<Rightarrow> osc_receive effect" where
  "OscReceive_addAddress_loop [] mul add self = Effect self [] None"
| "OscReceive_addAddress_loop ((i, p) # rest) mul add self =
     (if p \<notin> set (r_address self)
      then (let s1 = self\<lparr>r_mainReceiver := r_mainReceiver self @ [AddAddress_call p],
                          r_address := r_address self @ [p]\<rparr>
            in case OscReceive_base p mul add i of
                 Inl e \<Rightarrow> Effect s1 [] (Some e)
               | Inr obj \<Rightarrow>
                   OscReceive_addAddress_loop rest mul add
                     (s1\<lparr>r_base_objs := r_base_objs s1 @ [obj]\<rparr>))
      else OscReceive_addAddress_loop rest mul add self)"

definition OscReceive_addAddress :: "osc_receive \<Rightarrow> string arg \<Rightarrow> pyval \<Rightarrow> pyval \<Rightarrow> osc_receive effect" where
  "OscReceive_addAddress self path mul add =
     (let path' = convertArgsToLists path
      in OscReceive_addAddress_loop (zip [0..<length path'] path')
           (convertValToList mul) (convertValToList add) self)"

fun OscReceive_delAddress_loop :: "nat list \<Rightarrow> osc_receive \<Rightarrow> osc_receive effect" where
  "OscReceive_delAddress_loop [] self = Effect self [] None"
| "OscReceive_delAddress_loop (ind # rest) self =
     (case py_pop (r_address self) (int ind) of
        Inl e \<Rightarrow> Effect self [] (Some e)
      | Inr address' \<Rightarrow>
          (let s1 = self\<lparr>r_address := address'\<rparr>
           in case py_pop (r_base_objs s1) (int ind) of
                Inl e \<Rightarrow> Effect s1 [] (Some e)
              | Inr objs' \<Rightarrow> OscReceive_delAddress_loop rest (s1\<lparr>r_base_objs := objs'\<rparr>)))"

definition OscReceive_delAddress :: "osc_receive \<Rightarrow> string arg \<Rightarrow> osc_receive effect" where
  "OscReceive_delAddress self path =
     (let path' = convertArgsToLists path;
          s1 = self\<lparr>r_mainReceiver := r_mainReceiver self @ [DelAddress_call path']\<rparr>
      in case traverse (py_index (r_address s1)) path' of
           Inl e \<Rightarrow> Effect s1 [] (Some e)
         | Inr indexes \<Rightarrow> OscReceive_delAddress_loop (rev indexes) s1)"

fun OscReceive_setValue_loop ::
  "nat list \<Rightarrow> string list \<Rightarrow> pyval list \<Rightarrow> osc_receive \<Rightarrow> osc_receive effect" where
  "OscReceive_setValue_loop [] path vals self = Effect self [] None"
| "OscReceive_setValue_loop (i # rest) path vals self =
     (case wrap path i of
        Inl e \<Rightarrow> Effect self [] (Some e)
      | Inr p \<Rightarrow>
          if p \<in> set (r_address self)
          then (case wrap vals i of
                  Inl e \<Rightarrow> Effect self [] (Some e)
                | Inr v \<Rightarrow>
                    OscReceive_setValue_loop rest path vals
                      (self\<lparr>r_mainReceiver := r_mainReceiver self @ [SetValue_call p v]\<rparr>))
          else say (illegal_address_msg ''OscReceive'' p)
                 (OscReceive_setValue_loop rest path vals self))"

definition OscReceive_setValue :: "osc_receive \<Rightarrow> string arg \<Rightarrow> pyval \<Rightarrow> osc_receive effect" where
  "OscReceive_setValue self path v =
     (let path' = convertArgsToLists path;
          vals = convertValToList v;
          lmax = max (length path') (length vals)
      in OscReceive_setValue_loop [0..<lmax] path' vals self)"

section \<open>OscListReceive\<close>

record osc_list_receive_base =
  lb_address :: string
  lb_index :: int
  lb_mul :: pyval
  lb_add :: pyval

record osc_list_receive =
  l_num :: int
  l_op_duplicate :: int
  l_mul :: pyval
  l_add :: pyval
  l_address :: "string list"
  l_mainReceiver :: "receiver_call list"
  l_base_objs :: "osc_list_receive_base list"

definition OscListReceive_base ::
  "string \<Rightarrow> pyval list \<Rightarrow> pyval list \<Rightarrow> nat \<Rightarrow> int \<Rightarrow> py_error + osc_list_receive_base" where
  "OscListReceive_base p mul add i j =
     (case wrap mul i of
        Inl e \<Rightarrow> Inl e
      | Inr m \<Rightarrow>
          (case wrap add i of
             Inl e \<Rightarrow> Inl e
           | Inr d \<Rightarrow> Inr \<lparr>lb_address = p, lb_index = j, lb_mul = m, lb_add = d\<rparr>))"

definition OscListReceive_base_at ::
  "string list \<Rightarrow> pyval list \<Rightarrow> pyval list \<Rightarrow> nat \<times> int \<Rightarrow> py_error + osc_list_receive_base" where
  "OscListReceive_base_at address mul add ij =
     (case wrap address (fst ij) of
        Inl e \<Rightarrow> Inl e
      | Inr p \<Rightarrow> OscListReceive_base p mul add (fst ij) (snd ij))"

definition OscListReceive_init ::
  "pyval \<Rightarrow> string arg \<Rightarrow> pyval \<Rightarrow> pyval \<Rightarrow> pyval \<Rightarrow> osc_list_receive construction" where
  "OscListReceive_init port address num mul add =
     (case port of
        IntV n \<Rightarrow>
          (case num of
             IntV k \<Rightarrow>
               (let address' = convertArgsToLists address;
                    mul' = convertValToList mul;
                    add' = convertValToList add;
                    lmax = max (length address') (max (length mul') (length add'))
                in case traverse (OscListReceive_base_at address' mul' add')
                          (List.product [0..<lmax] (py_range k)) of
                     Inl e \<Rightarrow> Refused e []
                   | Inr objs \<Rightarrow>
                       Instance \<lparr>l_num = k, l_op_duplicate = k, l_mul = mul, l_add = add,
                         l_address = address',
                         l_mainReceiver = [Construct_call n address' (Some k)],
                         l_base_objs = objs\<rparr>)
           | _ \<Rightarrow> Refused SystemExit [num_msg ''OscListReceive''])
      | _ \<Rightarrow> Refused SystemExit [port_msg ''OscListReceive''])"

definition OscListReceive_getitem ::
  "osc_list_receive \<Rightarrow> key \<Rightarrow> osc_list_receive_base list option reply" where
  "OscListReceive_getitem self i =
     (case i of
        Name a \<Rightarrow>
          (case py_index (l_address self) a of
             Inl e \<Rightarrow> Raises e
           | Inr n \<Rightarrow>
               (let first = int n * l_num self
                in Reply (Some (py_slice (l_base_objs self) first (first + l_num self))) []))
      | Ordinal k \<Rightarrow>
          if k < int (length (l_base_objs self))
          then (let first = k * l_num self
                in Reply (Some (py_slice (l_base_objs self) first (first + l_num self))) [])
          else Reply None [too_large_msg])"

fun OscListReceive_addAddress_loop ::
  "(nat \<times> string) list \<Rightarrow> pyval list \<Rightarrow> pyval list \<Rightarrow> osc_list_receive \<Rightarrow>
     osc_list_receive effect" where
  "OscListReceive_addAddress_loop [] mul add self = Effect self [] None"
| "OscListReceive_addAddress_loop ((i, p) # rest) mul add self =
     (if p \<notin> set (l_address self)
      then (let s1 = self\<lparr>l_mainReceiver := l_mainReceiver self @ [AddAddress_call p],
                          l_address := l_address self @ [p]\<rparr>
            in case traverse (OscListReceive_base p mul add i) (py_range (l_num s1)) of
                 Inl e \<Rightarrow> Effect s1 [] (Some e)
               | Inr objs \<Rightarrow>
                   OscListReceive_addAddress_loop rest mul add
                     (s1\<lparr>l_base_objs := l_base_objs s1 @ objs\<rparr>))
      else OscListReceive_addAddress_loop rest mul add self)"

definition OscListReceive_addAddress ::
  "osc_list_receive \<Rightarrow> string arg \<Rightarrow> pyval \<Rightarrow> pyval \<Rightarrow> osc_list_receive effect" where
  "OscListReceive_addAddress self path mul add =
     (let path' = convertArgsToLists path
      in OscListReceive_addAddress_loop (zip [0..<length path'] path')
           (convertValToList mul) (convertValToList add) self)"

text \<open>
  The inner loop of \<open>delAddress\<close> pops one position after the other; an exception leaves
  the list as the pops before it made it.
\<close>

fun py_pops :: "'a list \<Rightarrow> int list \<Rightarrow> 'a list \<times> py_error option" where
  "py_pops xs [] = (xs, None)"
| "py_pops xs (i # rest) =
     (case py_pop xs i of Inl e \<Rightarrow> (xs, Some e) | Inr xs' \<Rightarrow> py_pops xs' rest)"

fun OscListReceive_delAddress_loop :: "nat list \<Rightarrow> osc_list_receive \<Rightarrow> osc_list_receive effect" where
  "OscListReceive_delAddress_loop [] self = Effect self [] None"
| "OscListReceive_delAddress_loop (ind # rest) self =
     (case py_pop (l_address self) (int ind) of
        Inl e \<Rightarrow> Effect self [] (Some e)
      | Inr address' \<Rightarrow>
          (let s1 = self\<lparr>l_address := address'\<rparr>;
               first = int ind * l_num s1;
               popped = py_pops (l_base_objs s1) (rev (py_range2 first (first + l_num s1)));
               s2 = s1\<lparr>l_base_objs := fst popped\<rparr>
           in case snd popped of
                Some e \<Rightarrow> Effect s2 [] (Some e)
              | None \<Rightarrow> OscListReceive_delAddress_loop rest s2))"

definition OscListReceive_delAddress :: "osc_list_receive \<Rightarrow> string arg \<Rightarrow> osc_list_receive effect" where
  "OscListReceive_delAddress self path =
     (let path' = convertArgsToLists path;
          s1 = self\<lparr>l_mainReceiver := l_mainReceiver self @ [DelAddress_call path']\<rparr>
      in case traverse (py_index (l_address s1)) path' of
           Inl e \<Rightarrow> Effect s1 [] (Some e)
         | Inr indexes \<Rightarrow> OscListReceive_delAddress_loop (rev indexes) s1)"

text \<open>\<open>len(v)\<close>, \<open>v[0]\<close> and \<open>type(v) == ListType\<close> on a value.\<close>

fun py_len :: "pyval \<Rightarrow> py_error + nat" where
  "py_len (ListV xs) = Inr (length xs)"
| "py_len (StrV cs) = Inr (length cs)"
| "py_len v = Inl TypeError"

fun py_first :: "pyval \<Rightarrow> py_error + pyval" where
  "py_first (ListV []) = Inl IndexError"
| "py_first (ListV (x # xs)) = Inr x"
| "py_first (StrV []) = Inl IndexError"
| "py_first (StrV (c # cs)) = Inr (StrV [c])"
| "py_first v = Inl TypeError"

fun is_ListType :: "pyval \<Rightarrow> bool" where
  "is_ListType (ListV xs) = True"
| "is_ListType v = False"

text \<open>The value that \<open>setValue\<close> takes for the \<open>i\<close>-th path.\<close>

definition OscListReceive_val :: "pyval \<Rightarrow> nat \<Rightarrow> py_error + pyval" where
  "OscListReceive_val v i =
     (case py_first v of
        Inl e \<Rightarrow> Inl e
      | Inr v0 \<Rightarrow> if is_ListType v0 then wrap (convertValToList v) i else Inr v)"

fun OscListReceive_setValue_loop ::
  "nat list \<Rightarrow> string list \<Rightarrow> pyval \<Rightarrow> osc_list_receive \<Rightarrow> osc_list_receive effect" where
  "OscListReceive_setValue_loop [] path v self = Effect self [] None"
| "OscListReceive_setValue_loop (i # rest) path v self =
     (case wrap path i of
        Inl e \<Rightarrow> Effect self [] (Some e)
      | Inr p \<Rightarrow>
          if p \<in> set (l_address self)
          then (case OscListReceive_val v i of
                  Inl e \<Rightarrow> Effect self [] (Some e)
                | Inr val \<Rightarrow>
                    (case py_len val of
                       Inl e \<Rightarrow> Effect self [] (Some e)
                     | Inr n \<Rightarrow>
                         if int n = l_num self
                         then OscListReceive_setValue_loop rest path v
                                (self\<lparr>l_mainReceiver :=
                                   l_mainReceiver self @ [SetValue_call p val]\<rparr>)
                         else say length_msg (OscListReceive_setValue_loop rest path v self)))
          else say (illegal_address_msg ''OscListReceive'' p)
                 (OscListReceive_setValue_loop rest path v self))"

definition OscListReceive_setValue ::
  "osc_list_receive \<Rightarrow> string arg \<Rightarrow> pyval \<Rightarrow> osc_list_receive effect" where
  "OscListReceive_setValue self path v =
     (let path' = convertArgsToLists path; lmax = length path'
      in OscListReceive_setValue_loop [0..<lmax] path' v self)"

text \<open>
  \<open>get\<close> reads \<open>obj._getStream().getValue()\<close>, the first sample of the current buffer
  of each stream. The buffers are filled by the audio engine at each block and not by
  this module, so the sample each stream object holds is a parameter of \<open>get\<close>.
\<close>

definition OscListReceive_window :: "osc_list_receive \<Rightarrow> nat \<Rightarrow> osc_list_receive_base list" where
  "OscListReceive_window self n =
     (let first = int n * l_num self
      in py_slice (l_base_objs self) first (first + l_num self))"

definition OscListReceive_get ::
  "(osc_list_receive_base \<Rightarrow> real) \<Rightarrow> osc_list_receive \<Rightarrow> string option \<Rightarrow> bool \<Rightarrow> pyval reply" where
  "OscListReceive_get getValue self identifier all =
     (if \<not> all
      then (case identifier of
              None \<Rightarrow> Raises ValueError
            | Some a \<Rightarrow>
                (case py_index (l_address self) a of
                   Inl e \<Rightarrow> Raises e
                 | Inr n \<Rightarrow>
                     Reply (ListV (map (\<lambda>obj. FloatV (getValue obj))
                                    (OscListReceive_window self n))) []))
      else (case traverse (py_index (l_address self)) (l_address self) of
              Inl e \<Rightarrow> Raises e
            | Inr firsts \<Rightarrow>
                Reply (ListV (map (\<lambda>n. ListV (map (\<lambda>obj. FloatV (getValue obj))
                                                 (OscListReceive_window self n))) firsts)) []))"

section \<open>OscDataReceive\<close>

text \<open>\<open>callable(x)\<close>: of the values modelled, functions are callable.\<close>

fun callable :: "pyval \<Rightarrow> bool" where
  "callable (FunV f) = True"
| "callable v = False"

datatype osc_data_receive_base = OscDataReceive_base int pyval

record osc_data_receive =
  dr_port :: int
  dr_function :: pyval
  dr_address :: "string list"
  dr_base_objs :: "osc_data_receive_base list"

definition OscDataReceive_init ::
  "pyval \<Rightarrow> string arg \<Rightarrow> pyval \<Rightarrow> pyval \<Rightarrow> pyval \<Rightarrow> osc_data_receive construction" where
  "OscDataReceive_init port address function mul add =
     (case port of
        IntV n \<Rightarrow>
          if \<not> callable function
          then Refused SystemExit [function_msg ''OscDataReceive'']
          else Instance \<lparr>dr_port = n, dr_function = function,
                 dr_address = convertArgsToLists address,
                 dr_base_objs = [OscDataReceive_base n function]\<rparr>
      | _ \<Rightarrow> Refused SystemExit [port_msg ''OscDataReceive''])"

text \<open>
  Modelled from the spec: the methods \<open>addAddress\<close> and \<open>delAddress\<close> of the C-level
  \<open>OscDataReceive_base\<close>, whose text is not part of this module. They "mutate the
  registered set live"; the source notes that \<open>self._address\<close> is the very list the
  C-level object holds, so the first appends the path to it and the second removes the
  position it is given.
\<close>

definition OscDataReceive_base_addAddress :: "string list \<Rightarrow> string \<Rightarrow> string list" where
  "OscDataReceive_base_addAddress address p = address @ [p]"

definition OscDataReceive_base_delAddress :: "string list \<Rightarrow> nat \<Rightarrow> string list" where
  "OscDataReceive_base_delAddress address ind = take ind address @ drop (Suc ind) address"

fun OscDataReceive_addAddress_loop :: "string list \<Rightarrow> osc_data_receive \<Rightarrow> osc_data_receive effect" where
  "OscDataReceive_addAddress_loop [] self = Effect self [] None"
| "OscDataReceive_addAddress_loop (p # rest) self =
     (if p \<notin> set (dr_address self)
      then (case py_getitem (dr_base_objs self) 0 of
              Inl e \<Rightarrow> Effect self [] (Some e)
            | Inr obj \<Rightarrow>
                OscDataReceive_addAddress_loop rest
                  (self\<lparr>dr_address := OscDataReceive_base_addAddress (dr_address self) p\<rparr>))
      else OscDataReceive_addAddress_loop rest self)"

definition OscDataReceive_addAddress :: "osc_data_receive \<Rightarrow> string arg \<Rightarrow> osc_data_receive effect" where
  "OscDataReceive_addAddress self path =
     OscDataReceive_addAddress_loop (convertArgsToLists path) self"

fun OscDataReceive_delAddress_loop :: "string list \<Rightarrow> osc_data_receive \<Rightarrow> osc_data_receive effect" where
  "OscDataReceive_delAddress_loop [] self = Effect self [] None"
| "OscDataReceive_delAddress_loop (p # rest) self =
     (case py_index (dr_address self) p of
        Inl e \<Rightarrow> Effect self [] (Some e)
      | Inr ind \<Rightarrow>
          (case py_getitem (dr_base_objs self) 0 of
             Inl e \<Rightarrow> Effect self [] (Some e)
           | Inr obj \<Rightarrow>
               OscDataReceive_delAddress_loop rest
                 (self\<lparr>dr_address := OscDataReceive_base_delAddress (dr_address self) ind\<rparr>)))"

definition OscDataReceive_delAddress :: "osc_data_receive \<Rightarrow> string arg \<Rightarrow> osc_data_receive effect" where
  "OscDataReceive_delAddress self path =
     OscDataReceive_delAddress_loop (convertArgsToLists path) self"

section \<open>OscDataSend\<close>

text \<open>
  The dictionary \<open>_addresses\<close> and the list \<open>_base_objs\<close> hold the same C-level objects,
  and \<open>list.remove\<close> finds an object by identity. Each object therefore carries the
  number under which it was created, \<open>sb_oid\<close>, drawn from the counter \<open>ds_next_oid\<close>.
  \<open>ds_sent\<close> lists the messages handed to the transport, oldest first, each with the
  object that sent it.
\<close>

record osc_data_send_base =
  sb_oid :: nat
  sb_types :: string
  sb_port :: pyval
  sb_address :: string
  sb_host :: string

record osc_data_send =
  ds_base_objs :: "osc_data_send_base list"
  ds_addresses :: "string \<rightharpoonup> osc_data_send_base"
  ds_next_oid :: nat
  ds_sent :: "(nat \<times> pyval list) list"

definition OscDataSend_base ::
  "nat \<Rightarrow> string list \<Rightarrow> pyval list \<Rightarrow> string list \<Rightarrow> string list \<Rightarrow> nat \<Rightarrow>
     py_error + osc_data_send_base" where
  "OscDataSend_base oid0 types port address host i =
     (case wrap types i of
        Inl e \<Rightarrow> Inl e
      | Inr t \<Rightarrow>
          (case wrap port i of
             Inl e \<Rightarrow> Inl e
           | Inr q \<Rightarrow>
               (case wrap address i of
                  Inl e \<Rightarrow> Inl e
                | Inr a \<Rightarrow>
                    (case wrap host i of
                       Inl e \<Rightarrow> Inl e
                     | Inr h \<Rightarrow>
                         Inr \<lparr>sb_oid = oid0 + i, sb_types = t, sb_port = q,
                              sb_address = a, sb_host = h\<rparr>))))"

text \<open>\<open>for i, adr in enumerate(address): self._addresses[adr] = objs[i]\<close>\<close>

fun OscDataSend_bind ::
  "(nat \<times> string) list \<Rightarrow> osc_data_send_base list \<Rightarrow> (string \<rightharpoonup> osc_data_send_base) \<Rightarrow>
     (string \<rightharpoonup> osc_data_send_base) \<times> py_error option" where
  "OscDataSend_bind [] objs m = (m, None)"
| "OscDataSend_bind ((i, adr) # rest) objs m =
     (case py_getitem objs (int i) of
        Inl e \<Rightarrow> (m, Some e)
      | Inr obj \<Rightarrow> OscDataSend_bind rest objs (m(adr \<mapsto> obj)))"

definition OscDataSend_init ::
  "string arg \<Rightarrow> pyval \<Rightarrow> string arg \<Rightarrow> string arg \<Rightarrow> osc_data_send construction" where
  "OscDataSend_init types port address host =
     (let types' = convertArgsToLists types;
          port' = convertValToList port;
          address' = convertArgsToLists address;
          host' = convertArgsToLists host;
          lmax = max (max (length types') (length port')) (max (length address') (length host'))
      in case traverse (OscDataSend_base 0 types' port' address' host') [0..<lmax] of
           Inl e \<Rightarrow> Refused e []
         | Inr objs \<Rightarrow>
             (case OscDataSend_bind (zip [0..<length address'] address') objs Map.empty of
                (m, Some e) \<Rightarrow> Refused e []
              | (m, None) \<Rightarrow>
                  Instance \<lparr>ds_base_objs = objs, ds_addresses = m, ds_next_oid = lmax,
                    ds_sent = []\<rparr>))"

definition OscDataSend_setMul :: "osc_data_send \<Rightarrow> pyval \<Rightarrow> osc_data_send effect" where
  "OscDataSend_setMul self x = Effect self [] None"

definition OscDataSend_setAdd :: "osc_data_send \<Rightarrow> pyval \<Rightarrow> osc_data_send effect" where
  "OscDataSend_setAdd self x = Effect self [] None"

definition OscDataSend_addAddress ::
  "osc_data_send \<Rightarrow> string arg \<Rightarrow> pyval \<Rightarrow> string arg \<Rightarrow> string arg \<Rightarrow> osc_data_send effect" where
  "OscDataSend_addAddress self types port address host =
     (let types' = convertArgsToLists types;
          port' = convertValToList port;
          address' = convertArgsToLists address;
          host' = convertArgsToLists host;
          lmax = max (max (length types') (length port')) (max (length address') (length host'))
      in case traverse (OscDataSend_base (ds_next_oid self) types' port' address' host')
                [0..<lmax] of
           Inl e \<Rightarrow> Effect self [] (Some e)
         | Inr objs \<Rightarrow>
             (let s1 = self\<lparr>ds_base_objs := ds_base_objs self @ objs,
                             ds_next_oid := ds_next_oid self + lmax\<rparr>;
                  bound = OscDataSend_bind (zip [0..<length address'] address') objs
                            (ds_addresses s1)
              in Effect (s1\<lparr>ds_addresses := fst bound\<rparr>) [] (snd bound)))"

text \<open>\<open>xs.remove(x)\<close>: the list without the first \<open>x\<close>, or \<open>ValueError\<close>.\<close>

definition py_remove :: "'a list \<Rightarrow> 'a \<Rightarrow> py_error + 'a list" where
  "py_remove xs x = (if x \<in> set xs then Inr (remove1 x xs) else Inl ValueError)"

fun OscDataSend_delAddress_loop :: "string list \<Rightarrow> osc_data_send \<Rightarrow> osc_data_send effect" where
  "OscDataSend_delAddress_loop [] self = Effect self [] None"
| "OscDataSend_delAddress_loop (p # rest) self =
     (case ds_addresses self p of
        None \<Rightarrow> Effect self [] (Some KeyError)
      | Some obj \<Rightarrow>
          (case py_remove (ds_base_objs self) obj of
             Inl e \<Rightarrow> Effect self [] (Some e)
           | Inr objs' \<Rightarrow>
               OscDataSend_delAddress_loop rest
                 (self\<lparr>ds_base_objs := objs', ds_addresses := (ds_addresses self)(p := None)\<rparr>)))"

definition OscDataSend_delAddress :: "osc_data_send \<Rightarrow> string arg \<Rightarrow> osc_data_send effect" where
  "OscDataSend_delAddress self path =
     OscDataSend_delAddress_loop (convertArgsToLists path) self"

text \<open>
  Modelled from the spec: the method \<open>send\<close> of the C-level \<open>OscDataSend_base\<close>, whose
  text is not part of this module. "Values are validated against the registered type
  signature (i=int32, h=int64, f=float32, d=float64, s=string); mismatch:
  TypeSignatureMismatchError, non-fatal, that send aborted": a message that matches the
  signature of the object is handed to the transport, any other is reported by a printed
  line and not sent, and in neither case is an exception raised.
\<close>

definition tag_accepts :: "char \<Rightarrow> pyval \<Rightarrow> bool" where
  "tag_accepts c v =
     (if c = CHR ''i'' then (case v of IntV n \<Rightarrow> - (2 ^ 31) \<le> n \<and> n < 2 ^ 31 | _ \<Rightarrow> False)
      else if c = CHR ''h'' then
        (case v of
           IntV n \<Rightarrow> - (2 ^ 63) \<le> n \<and> n < 2 ^ 63
         | LongV n \<Rightarrow> - (2 ^ 63) \<le> n \<and> n < 2 ^ 63
         | _ \<Rightarrow> False)
      else if c = CHR ''f'' \<or> c = CHR ''d'' then (case v of FloatV x \<Rightarrow> True | _ \<Rightarrow> False)
      else if c = CHR ''s'' then (case v of StrV cs \<Rightarrow> True | _ \<Rightarrow> False)
      else False)"

definition signature_matches :: "string \<Rightarrow> pyval list \<Rightarrow> bool" where
  "signature_matches types msg = list_all2 tag_accepts types msg"

definition mismatch_msg :: "osc_data_send_base \<Rightarrow> string" where
  "mismatch_msg obj = ''TypeSignatureMismatchError: '' @ sb_address obj"

definition OscDataSend_base_send ::
  "osc_data_send_base \<Rightarrow> pyval list \<Rightarrow> osc_data_send \<Rightarrow> osc_data_send effect" where
  "OscDataSend_base_send obj msg self =
     (if signature_matches (sb_types obj) msg
      then Effect (self\<lparr>ds_sent := ds_sent self @ [(sb_oid obj, msg)]\<rparr>) [] None
      else Effect self [mismatch_msg obj] None)"

text \<open>
  \<open>[obj.send(msg) for obj in self._base_objs]\<close>: the comprehension has no handler, so an
  exception of one call would end it.
\<close>

fun OscDataSend_send_all ::
  "osc_data_send_base list \<Rightarrow> pyval list \<Rightarrow> osc_data_send \<Rightarrow> osc_data_send effect" where
  "OscDataSend_send_all [] msg self = Effect self [] None"
| "OscDataSend_send_all (obj # rest) msg self =
     (let e = OscDataSend_base_send obj msg self
      in case raised e of
           Some x \<Rightarrow> e
         | None \<Rightarrow>
             (let e' = OscDataSend_send_all rest msg (after e)
              in Effect (after e') (printed e @ printed e') (raised e')))"

definition OscDataSend_send ::
  "osc_data_send \<Rightarrow> pyval list \<Rightarrow> string option \<Rightarrow> osc_data_send effect" where
  "OscDataSend_send self msg address =
     (case address of
        None \<Rightarrow> OscDataSend_send_all (ds_base_objs self) msg self
      | Some a \<Rightarrow>
          (case ds_addresses self a of
             None \<Rightarrow> Effect self [] (Some KeyError)
           | Some obj \<Rightarrow> OscDataSend_base_send obj msg self))"

section \<open>Predicates of the statements\<close>

text \<open>\<open>type(x) == IntType\<close>\<close>

fun is_IntType :: "pyval \<Rightarrow> bool" where
  "is_IntType (IntV n) = True"
| "is_IntType v = False"

text \<open>
  A construction is refused fatally when it ends by \<open>SystemExit\<close> after writing a
  message, so that no instance exists.
\<close>

fun refused_fatally :: "'s construction \<Rightarrow> bool" where
  "refused_fatally (Refused e msgs) = (e = SystemExit \<and> msgs \<noteq> [])"
| "refused_fatally (Instance s) = False"

text \<open>
  The stream objects of an \<open>OscReceive\<close> stand in the order of its addresses, one for
  each; those of an \<open>OscListReceive\<close> stand in blocks, one block for each address in the
  order of the addresses, holding the streams \<open>0, ..., num - 1\<close> of that address.
\<close>

definition inv_receive :: "osc_receive \<Rightarrow> bool" where
  "inv_receive r = (map rb_address (r_base_objs r) = r_address r)"

definition block :: "int \<Rightarrow> string \<Rightarrow> (string \<times> int) list" where
  "block num a = map (\<lambda>j. (a, j)) (py_range num)"

definition inv_list :: "osc_list_receive \<Rightarrow> bool" where
  "inv_list l =
     (map (\<lambda>obj. (lb_address obj, lb_index obj)) (l_base_objs l) =
      concat (map (block (l_num l)) (l_address l)))"

text \<open>
  A sequence of \<open>addAddress\<close> and \<open>delAddress\<close> calls on one object. A caller may catch
  the exception of a call and go on, so each call starts from the object as the call
  before it left it.
\<close>

datatype call = AddAddress "string arg" pyval pyval | DelAddress "string arg"

fun OscReceive_calls :: "call list \<Rightarrow> osc_receive \<Rightarrow> osc_receive" where
  "OscReceive_calls [] r = r"
| "OscReceive_calls (AddAddress path mul add # cs) r =
     OscReceive_calls cs (after (OscReceive_addAddress r path mul add))"
| "OscReceive_calls (DelAddress path # cs) r =
     OscReceive_calls cs (after (OscReceive_delAddress r path))"

fun OscListReceive_calls :: "call list \<Rightarrow> osc_list_receive \<Rightarrow> osc_list_receive" where
  "OscListReceive_calls [] l = l"
| "OscListReceive_calls (AddAddress path mul add # cs) l =
     OscListReceive_calls cs (after (OscListReceive_addAddress l path mul add))"
| "OscListReceive_calls (DelAddress path # cs) l =
     OscListReceive_calls cs (after (OscListReceive_delAddress l path))"

text \<open>
  The \<open>mul\<close> and \<open>add\<close> of an \<open>addAddress\<close> are documented as a float or an audio object;
  a list is accepted too, and broadcasting needs it not to be empty.
\<close>

fun call_ok :: "call \<Rightarrow> bool" where
  "call_ok (AddAddress path mul add) = (convertValToList mul \<noteq> [] \<and> convertValToList add \<noteq> [])"
| "call_ok (DelAddress path) = True"

text \<open>What \<open>wrap xs i\<close> returns when \<open>xs\<close> is not empty.\<close>

definition wrapped :: "'a list \<Rightarrow> nat \<Rightarrow> 'a" where
  "wrapped xs i = xs ! (i mod length xs)"

section \<open>Objects of the examples\<close>

text \<open>\<open>OscReceive(port=10001, address=['/pitch', '/amp'])\<close>\<close>

definition example_receive :: osc_receive where
  "example_receive =
     \<lparr>r_mul = IntV 1, r_add = IntV 0, r_address = [''/pitch'', ''/amp''],
      r_mainReceiver = [Construct_call 10001 [''/pitch'', ''/amp''] None],
      r_base_objs =
        [\<lparr>rb_address = ''/pitch'', rb_mul = IntV 1, rb_add = IntV 0\<rparr>,
         \<lparr>rb_address = ''/amp'', rb_mul = IntV 1, rb_add = IntV 0\<rparr>]\<rparr>"

text \<open>\<open>OscListReceive(port=10001, address=['/pitch', '/amp'], num=2)\<close>\<close>

definition example_list :: osc_list_receive where
  "example_list =
     \<lparr>l_num = 2, l_op_duplicate = 2, l_mul = IntV 1, l_add = IntV 0,
      l_address = [''/pitch'', ''/amp''],
      l_mainReceiver = [Construct_call 10001 [''/pitch'', ''/amp''] (Some 2)],
      l_base_objs =
        [\<lparr>lb_address = ''/pitch'', lb_index = 0, lb_mul = IntV 1, lb_add = IntV 0\<rparr>,
         \<lparr>lb_address = ''/pitch'', lb_index = 1, lb_mul = IntV 1, lb_add = IntV 0\<rparr>,
         \<lparr>lb_address = ''/amp'', lb_index = 0, lb_mul = IntV 1, lb_add = IntV 0\<rparr>,
         \<lparr>lb_address = ''/amp'', lb_index = 1, lb_mul = IntV 1, lb_add = IntV 0\<rparr>]\<rparr>"

text \<open>\<open>OscListReceive(port=10001, address='/pitch', num=0)\<close>\<close>

definition example_list0 :: osc_list_receive where
  "example_list0 =
     \<lparr>l_num = 0, l_op_duplicate = 0, l_mul = IntV 1, l_add = IntV 0,
      l_address = [''/pitch''],
      l_mainReceiver = [Construct_call 10001 [''/pitch''] (Some 0)],
      l_base_objs = []\<rparr>"

text \<open>\<open>OscDataReceive(9900, "/data/test", pp)\<close>\<close>

definition example_data_receive :: osc_data_receive where
  "example_data_receive =
     \<lparr>dr_port = 9900, dr_function = FunV ''pp'', dr_address = [''/data/test''],
      dr_base_objs = [OscDataReceive_base 9900 (FunV ''pp'')]\<rparr>"

text \<open>\<open>OscDataSend(["f", "i"], 9900, ["/freq", "/count"])\<close>\<close>

definition example_target_freq :: osc_data_send_base where
  "example_target_freq =
     \<lparr>sb_oid = 0, sb_types = ''f'', sb_port = IntV 9900, sb_address = ''/freq'',
      sb_host = ''127.0.0.1''\<rparr>"

definition example_target_count :: osc_data_send_base where
  "example_target_count =
     \<lparr>sb_oid = 1, sb_types = ''i'', sb_port = IntV 9900, sb_address = ''/count'',
      sb_host = ''127.0.0.1''\<rparr>"

definition example_data_send :: osc_data_send where
  "example_data_send =
     \<lparr>ds_base_objs = [example_target_freq, example_target_count],
      ds_addresses = [''/freq'' \<mapsto> example_target_freq, ''/count'' \<mapsto> example_target_count],
      ds_next_oid = 2, ds_sent = []\<rparr>"

definition example_send :: osc_send where
  "example_send =
     \<lparr>snd_input = ObjV ''Sine'', snd_in_fader = ObjV ''InputFader'',
      snd_base_objs = [OscSend_base (ObjV ''InputFader'') (IntV 10001) ''/pitch'' ''127.0.0.1'']\<rparr>"

section \<open>The examples are constructed objects\<close>

text \<open>Each object of the examples is the instance its constructor call builds.\<close>

lemma example_receive_constructed:
  "OscReceive_init (IntV 10001) (Multi [''/pitch'', ''/amp'']) (IntV 1) (IntV 0) =
     Instance example_receive"
  by (simp add: OscReceive_init_def example_receive_def OscReceive_base_at_def
      OscReceive_base_def wrap_def upt_rec Let_def)

lemma example_list_constructed:
  "OscListReceive_init (IntV 10001) (Multi [''/pitch'', ''/amp'']) (IntV 2) (IntV 1) (IntV 0) =
     Instance example_list"
  by (simp add: OscListReceive_init_def example_list_def OscListReceive_base_at_def
      OscListReceive_base_def wrap_def py_range_def upt_rec Let_def)

lemma example_data_receive_constructed:
  "OscDataReceive_init (IntV 9900) (Single ''/data/test'') (FunV ''pp'') (IntV 1) (IntV 0) =
     Instance example_data_receive"
  by (simp add: OscDataReceive_init_def example_data_receive_def)

lemma example_data_send_constructed:
  "OscDataSend_init (Multi [''f'', ''i'']) (IntV 9900) (Multi [''/freq'', ''/count''])
     (Single ''127.0.0.1'') = Instance example_data_send"
  by (simp add: OscDataSend_init_def example_data_send_def example_target_freq_def
      example_target_count_def OscDataSend_base_def wrap_def py_getitem_def py_position_def
      upt_rec Let_def)

section \<open>The senders have no mul and no add\<close>

text \<open>
  C10. For every \<open>OscSend\<close> and \<open>OscDataSend\<close> object and every argument \<open>x\<close>,
  \<open>setMul(x)\<close> and \<open>setAdd(x)\<close> leave every field of the object unchanged: the object
  after the call is the object before it, nothing is printed and nothing is raised.
\<close>

theorem sender_setMul_setAdd_no_op:
  "OscSend_setMul s x = Effect s [] None \<and> OscSend_setAdd s x = Effect s [] None \<and>
   OscDataSend_setMul d x = Effect d [] None \<and> OscDataSend_setAdd d x = Effect d [] None \<and>
   after (OscSend_setMul s x) = s \<and> after (OscSend_setAdd s x) = s \<and>
   after (OscDataSend_setMul d x) = d \<and> after (OscDataSend_setAdd d x) = d"
  by (simp add: OscSend_setMul_def OscSend_setAdd_def OscDataSend_setMul_def
      OscDataSend_setAdd_def)

theorem sender_setMul_setAdd_no_op_witness:
  "after (OscSend_setMul example_send (FloatV 2)) = example_send \<and>
   after (OscSend_setAdd example_send (FloatV 2)) = example_send \<and>
   after (OscDataSend_setMul example_data_send (FloatV 2)) = example_data_send \<and>
   after (OscDataSend_setAdd example_data_send (FloatV 2)) = example_data_send"
  using sender_setMul_setAdd_no_op [of example_send "FloatV 2" example_data_send]
  by simp

section \<open>Construction with a bad argument\<close>

lemma not_IntType_cases:
  "\<not> is_IntType port \<Longrightarrow> (case port of IntV n \<Rightarrow> f n | _ \<Rightarrow> g) = g"
  by (cases port) simp_all

text \<open>
  C8. The construction of a receiver whose \<open>port\<close> argument is not an integer is refused
  fatally: a message is written, \<open>exit()\<close> ends the construction and no instance is
  produced. The same holds of an \<open>OscDataReceive\<close> whose \<open>function\<close> argument is not
  callable and of an \<open>OscListReceive\<close> whose \<open>num\<close> argument is not an integer. The port
  is checked first, so its message is the one written when both arguments are bad.
\<close>

theorem construction_refused:
  "(\<not> is_IntType port \<longrightarrow>
      OscReceive_init port address mul add = Refused SystemExit [port_msg ''OscReceive''] \<and>
      OscDataReceive_init port address function mul add =
        Refused SystemExit [port_msg ''OscDataReceive''] \<and>
      OscListReceive_init port address num mul add =
        Refused SystemExit [port_msg ''OscListReceive'']) \<and>
   (is_IntType port \<and> \<not> callable function \<longrightarrow>
      OscDataReceive_init port address function mul add =
        Refused SystemExit [function_msg ''OscDataReceive'']) \<and>
   (is_IntType port \<and> \<not> is_IntType num \<longrightarrow>
      OscListReceive_init port address num mul add =
        Refused SystemExit [num_msg ''OscListReceive'']) \<and>
   (\<not> is_IntType port \<longrightarrow> refused_fatally (OscReceive_init port address mul add)) \<and>
   (\<not> is_IntType port \<or> \<not> callable function \<longrightarrow>
      refused_fatally (OscDataReceive_init port address function mul add)) \<and>
   (\<not> is_IntType port \<or> \<not> is_IntType num \<longrightarrow>
      refused_fatally (OscListReceive_init port address num mul add))"
proof -
  have p: "\<not> is_IntType port \<Longrightarrow>
      OscReceive_init port address mul add = Refused SystemExit [port_msg ''OscReceive''] \<and>
      OscDataReceive_init port address function mul add =
        Refused SystemExit [port_msg ''OscDataReceive''] \<and>
      OscListReceive_init port address num mul add =
        Refused SystemExit [port_msg ''OscListReceive'']"
    by (simp add: OscReceive_init_def OscDataReceive_init_def OscListReceive_init_def
        not_IntType_cases)
  have f: "is_IntType port \<Longrightarrow> \<not> callable function \<Longrightarrow>
      OscDataReceive_init port address function mul add =
        Refused SystemExit [function_msg ''OscDataReceive'']"
    by (cases port) (simp_all add: OscDataReceive_init_def)
  have n: "is_IntType port \<Longrightarrow> \<not> is_IntType num \<Longrightarrow>
      OscListReceive_init port address num mul add =
        Refused SystemExit [num_msg ''OscListReceive'']"
    by (cases port) (simp_all add: OscListReceive_init_def not_IntType_cases)
  show ?thesis
    using p f n by (cases "is_IntType port") auto
qed

theorem construction_refused_witness:
  "refused_fatally (OscReceive_init (StrV ''10001'') (Single ''/pitch'') (IntV 1) (IntV 0)) \<and>
   refused_fatally
     (OscDataReceive_init (IntV 9900) (Single ''/data/test'') (StrV ''pp'') (IntV 1) (IntV 0)) \<and>
   refused_fatally
     (OscListReceive_init (IntV 10001) (Single ''/pitch'') (FloatV 8) (IntV 1) (IntV 0)) \<and>
   OscDataReceive_init (FloatV 9900) (Single ''/data/test'') (StrV ''pp'') (IntV 1) (IntV 0) =
     Refused SystemExit [port_msg ''OscDataReceive'']"
  using construction_refused [of "StrV ''10001''" "Single ''/pitch''" "IntV 1" "IntV 0" "FunV ''f''" "IntV 8"]
    construction_refused [of "IntV 9900" "Single ''/data/test''" "IntV 1" "IntV 0" "StrV ''pp''" "IntV 8"]
    construction_refused [of "IntV 10001" "Single ''/pitch''" "IntV 1" "IntV 0" "FunV ''f''" "FloatV 8"]
    construction_refused [of "FloatV 9900" "Single ''/data/test''" "IntV 1" "IntV 0" "StrV ''pp''" "IntV 8"]
  by simp

section \<open>Unknown and duplicate addresses\<close>

lemma py_index_notin: "x \<notin> set xs \<Longrightarrow> py_index xs x = Inl ValueError"
  by (induction xs) auto

lemma py_index_in: "x \<in> set xs \<Longrightarrow> \<exists>n. py_index xs x = Inr n"
  by (induction xs) auto

lemma py_index_Inr: "py_index xs x = Inr n \<Longrightarrow> n < length xs \<and> xs ! n = x"
  by (induction xs arbitrary: n) (auto split: if_splits sum.splits)

text \<open>
  C1. On every object with a \<open>delAddress\<close> method, \<open>delAddress(path)\<close> with one path that is
  not registered is reported and is not fatal: the call ends with the exception of the
  failed lookup (\<open>ValueError\<close> from \<open>list.index\<close>, \<open>KeyError\<close> from the dictionary of an
  \<open>OscDataSend\<close>), which is not \<open>SystemExit\<close>. It is a no-op: the registered addresses and the
  stream objects are as before. On \<open>OscReceive\<close> and \<open>OscListReceive\<close> the request has been
  passed on to the C-level receiver before the lookup fails; nothing else of the object
  changes.
\<close>

theorem delAddress_unknown_path:
  assumes "convertArgsToLists path = [p]"
  shows "(p \<notin> set (r_address r) \<longrightarrow>
           OscReceive_delAddress r path =
             Effect (r\<lparr>r_mainReceiver := r_mainReceiver r @ [DelAddress_call [p]]\<rparr>) []
               (Some ValueError) \<and>
           reported (OscReceive_delAddress r path) \<and> \<not> fatal (OscReceive_delAddress r path) \<and>
           r_address (after (OscReceive_delAddress r path)) = r_address r \<and>
           r_base_objs (after (OscReceive_delAddress r path)) = r_base_objs r) \<and>
         (p \<notin> set (l_address l) \<longrightarrow>
           OscListReceive_delAddress l path =
             Effect (l\<lparr>l_mainReceiver := l_mainReceiver l @ [DelAddress_call [p]]\<rparr>) []
               (Some ValueError) \<and>
           reported (OscListReceive_delAddress l path) \<and>
           \<not> fatal (OscListReceive_delAddress l path) \<and>
           l_address (after (OscListReceive_delAddress l path)) = l_address l \<and>
           l_base_objs (after (OscListReceive_delAddress l path)) = l_base_objs l) \<and>
         (ds_addresses d p = None \<longrightarrow>
           OscDataSend_delAddress d path = Effect d [] (Some KeyError) \<and>
           reported (OscDataSend_delAddress d path) \<and> \<not> fatal (OscDataSend_delAddress d path)) \<and>
         (p \<notin> set (dr_address q) \<longrightarrow>
           OscDataReceive_delAddress q path = Effect q [] (Some ValueError) \<and>
           reported (OscDataReceive_delAddress q path) \<and>
           \<not> fatal (OscDataReceive_delAddress q path))"
proof -
  have r: "p \<notin> set (r_address r) \<Longrightarrow>
      OscReceive_delAddress r path =
        Effect (r\<lparr>r_mainReceiver := r_mainReceiver r @ [DelAddress_call [p]]\<rparr>) []
          (Some ValueError)"
    using assms by (simp add: OscReceive_delAddress_def py_index_notin)
  have l: "p \<notin> set (l_address l) \<Longrightarrow>
      OscListReceive_delAddress l path =
        Effect (l\<lparr>l_mainReceiver := l_mainReceiver l @ [DelAddress_call [p]]\<rparr>) []
          (Some ValueError)"
    using assms by (simp add: OscListReceive_delAddress_def py_index_notin)
  have d: "ds_addresses d p = None \<Longrightarrow>
      OscDataSend_delAddress d path = Effect d [] (Some KeyError)"
    using assms by (simp add: OscDataSend_delAddress_def)
  have q: "p \<notin> set (dr_address q) \<Longrightarrow>
      OscDataReceive_delAddress q path = Effect q [] (Some ValueError)"
    using assms by (simp add: OscDataReceive_delAddress_def py_index_notin)
  show ?thesis
    using r l d q by (simp add: reported_def fatal_def)
qed

theorem delAddress_unknown_path_witness:
  "OscReceive_delAddress example_receive (Single ''/x'') =
     Effect (example_receive\<lparr>r_mainReceiver :=
       r_mainReceiver example_receive @ [DelAddress_call [''/x'']]\<rparr>) [] (Some ValueError) \<and>
   r_address (after (OscReceive_delAddress example_receive (Single ''/x''))) =
     [''/pitch'', ''/amp''] \<and>
   l_address (after (OscListReceive_delAddress example_list (Single ''/x''))) =
     [''/pitch'', ''/amp''] \<and>
   OscDataSend_delAddress example_data_send (Single ''/x'') =
     Effect example_data_send [] (Some KeyError) \<and>
   OscDataReceive_delAddress example_data_receive (Single ''/x'') =
     Effect example_data_receive [] (Some ValueError)"
  using delAddress_unknown_path [where path = "Single ''/x''" and p = "''/x''"
      and r = example_receive and l = example_list and d = example_data_send
      and q = example_data_receive]
  by (simp add: example_receive_def example_list_def example_data_send_def
      example_data_receive_def)

lemma OscReceive_addAddress_loop_registered:
  "snd ` set ps \<subseteq> set (r_address r) \<Longrightarrow> OscReceive_addAddress_loop ps mul add r = Effect r [] None"
  by (induction ps) auto

lemma OscListReceive_addAddress_loop_registered:
  "snd ` set ps \<subseteq> set (l_address l) \<Longrightarrow>
   OscListReceive_addAddress_loop ps mul add l = Effect l [] None"
  by (induction ps) auto

lemma OscDataReceive_addAddress_loop_registered:
  "set ps \<subseteq> set (dr_address q) \<Longrightarrow> OscDataReceive_addAddress_loop ps q = Effect q [] None"
  by (induction ps) auto

lemma snd_zip_subset: "snd ` set (zip xs ys) \<subseteq> set ys"
  by (auto dest: set_zip_rightD)

text \<open>
  C3, as amended. On every receive-side object, \<open>addAddress\<close> with paths that are all
  registered already is silently ignored: the object is exactly as before (address list,
  stream objects, their order, and the calls made on the C-level receiver), nothing is
  printed and nothing is raised.
\<close>

theorem addAddress_registered_path:
  "(set (convertArgsToLists path) \<subseteq> set (r_address r) \<longrightarrow>
      OscReceive_addAddress r path mul add = Effect r [] None) \<and>
   (set (convertArgsToLists path) \<subseteq> set (l_address l) \<longrightarrow>
      OscListReceive_addAddress l path mul add = Effect l [] None) \<and>
   (set (convertArgsToLists path) \<subseteq> set (dr_address q) \<longrightarrow>
      OscDataReceive_addAddress q path = Effect q [] None)"
proof -
  have "snd ` set (zip [0..<length (convertArgsToLists path)] (convertArgsToLists path))
          \<subseteq> set (convertArgsToLists path)"
    by (rule snd_zip_subset)
  then show ?thesis
    by (auto simp: OscReceive_addAddress_def OscListReceive_addAddress_def
        OscDataReceive_addAddress_def Let_def
        intro!: OscReceive_addAddress_loop_registered OscListReceive_addAddress_loop_registered
          OscDataReceive_addAddress_loop_registered)
qed

theorem addAddress_registered_path_witness:
  "OscReceive_addAddress example_receive (Single ''/amp'') (IntV 1) (IntV 0) =
     Effect example_receive [] None \<and>
   OscListReceive_addAddress example_list (Multi [''/amp'', ''/pitch'']) (IntV 1) (IntV 0) =
     Effect example_list [] None \<and>
   OscDataReceive_addAddress example_data_receive (Single ''/data/test'') =
     Effect example_data_receive [] None"
  using addAddress_registered_path [where path = "Single ''/amp''" and r = example_receive
      and mul = "IntV 1" and add = "IntV 0"]
    addAddress_registered_path [where path = "Multi [''/amp'', ''/pitch'']"
      and l = example_list and mul = "IntV 1" and add = "IntV 0"]
    addAddress_registered_path [where path = "Single ''/data/test''"
      and q = example_data_receive]
  by (simp add: example_receive_def example_list_def example_data_receive_def)

text \<open>
  C3 as stated asks for the duplicate to be reported as an error. The source guards the
  registration by \<open>if p not in self._address\<close> with no other branch: adding \<open>/amp\<close> again
  to the receiver of \<open>/pitch\<close> and \<open>/amp\<close> reports nothing.
\<close>

theorem addAddress_registered_not_reported:
  "''/amp'' \<in> set (r_address example_receive) \<and>
   \<not> reported (OscReceive_addAddress example_receive (Single ''/amp'') (IntV 1) (IntV 0)) \<and>
   raised (OscReceive_addAddress example_receive (Single ''/amp'') (IntV 1) (IntV 0)) = None"
  by (simp add: example_receive_def OscReceive_addAddress_def reported_def Let_def)

section \<open>Lookup of streams\<close>

text \<open>
  C7, as amended. Looking a stream up by an address that is not registered raises
  \<open>ValueError\<close>. Looking it up by an ordinal that is not below the number of stream objects
  raises nothing: it prints \<open>'i' too large!\<close> and returns \<open>None\<close>.
\<close>

theorem getitem_unknown_or_too_large:
  "(a \<notin> set (r_address r) \<longrightarrow> OscReceive_getitem r (Name a) = Raises ValueError) \<and>
   (a \<notin> set (l_address l) \<longrightarrow> OscListReceive_getitem l (Name a) = Raises ValueError) \<and>
   (int (length (r_base_objs r)) \<le> i \<longrightarrow>
      OscReceive_getitem r (Ordinal i) = Reply None [too_large_msg]) \<and>
   (int (length (l_base_objs l)) \<le> i \<longrightarrow>
      OscListReceive_getitem l (Ordinal i) = Reply None [too_large_msg])"
  by (simp add: OscReceive_getitem_def OscListReceive_getitem_def py_index_notin)

theorem getitem_unknown_or_too_large_witness:
  "OscReceive_getitem example_receive (Name ''/x'') = Raises ValueError \<and>
   OscListReceive_getitem example_list (Name ''/x'') = Raises ValueError \<and>
   OscReceive_getitem example_receive (Ordinal 2) = Reply None [too_large_msg] \<and>
   OscListReceive_getitem example_list (Ordinal 4) = Reply None [too_large_msg]"
  using getitem_unknown_or_too_large [where a = "''/x''" and r = example_receive
      and l = example_list and i = 2]
    getitem_unknown_or_too_large [where l = example_list and i = 4]
  by (simp add: example_receive_def example_list_def)

text \<open>
  C7 as stated asks for an error result and excludes \<open>None\<close>. With two stream objects, the
  ordinal \<open>2\<close> is out of range and the lookup returns \<open>None\<close>.
\<close>

theorem getitem_too_large_returns_None:
  "\<not> 2 < int (length (r_base_objs example_receive)) \<and>
   OscReceive_getitem example_receive (Ordinal 2) = Reply None [too_large_msg] \<and>
   returned (OscReceive_getitem example_receive (Ordinal 2)) = None"
  by (simp add: example_receive_def OscReceive_getitem_def)

section \<open>Setting values by hand\<close>

lemma wrap_wrapped: "xs \<noteq> [] \<Longrightarrow> wrap xs i = Inr (wrapped xs i)"
  by (simp add: wrap_def wrapped_def)

lemma OscReceive_setValue_loop_effect:
  "ps \<noteq> [] \<Longrightarrow> vs \<noteq> [] \<Longrightarrow>
   OscReceive_setValue_loop ixs ps vs r =
     Effect
       (r\<lparr>r_mainReceiver := r_mainReceiver r @
            map (\<lambda>i. SetValue_call (wrapped ps i) (wrapped vs i))
              (filter (\<lambda>i. wrapped ps i \<in> set (r_address r)) ixs)\<rparr>)
       (map (\<lambda>i. illegal_address_msg ''OscReceive'' (wrapped ps i))
          (filter (\<lambda>i. wrapped ps i \<notin> set (r_address r)) ixs))
       None"
proof (induction ixs arbitrary: r)
  case Nil
  then show ?case by simp
next
  case (Cons i ixs)
  show ?case
  proof (cases "wrapped ps i \<in> set (r_address r)")
    case True
    then show ?thesis
      using Cons.prems
      by (simp add: wrap_wrapped Cons.IH [OF Cons.prems])
  next
    case False
    then show ?thesis
      using Cons.prems
      by (simp add: wrap_wrapped Cons.IH [OF Cons.prems] say_def)
  qed
qed

text \<open>
  C4. \<open>OscReceive.setValue(path, value)\<close>, for a path and a value that are not empty lists,
  walks the positions \<open>0, ..., lmax - 1\<close>, the path and the value of a position being taken
  cyclically. It never raises. A position whose path is registered passes its value on to
  the receiver; a position whose path is not registered prints the error line and changes
  nothing, whatever the other positions hold. The addresses and the stream objects are as
  before, and no value is ever set for a path that is not registered.
\<close>

theorem OscReceive_setValue_effect:
  assumes "convertArgsToLists path = ps" and "convertValToList v = vs"
    and "ps \<noteq> []" and "vs \<noteq> []"
  shows "OscReceive_setValue r path v =
           Effect
             (r\<lparr>r_mainReceiver := r_mainReceiver r @
                  map (\<lambda>i. SetValue_call (wrapped ps i) (wrapped vs i))
                    (filter (\<lambda>i. wrapped ps i \<in> set (r_address r))
                       [0..<max (length ps) (length vs)])\<rparr>)
             (map (\<lambda>i. illegal_address_msg ''OscReceive'' (wrapped ps i))
                (filter (\<lambda>i. wrapped ps i \<notin> set (r_address r))
                   [0..<max (length ps) (length vs)]))
             None \<and>
         \<not> fatal (OscReceive_setValue r path v) \<and>
         r_address (after (OscReceive_setValue r path v)) = r_address r \<and>
         r_base_objs (after (OscReceive_setValue r path v)) = r_base_objs r \<and>
         (\<forall>i < max (length ps) (length vs).
            if wrapped ps i \<in> set (r_address r)
            then SetValue_call (wrapped ps i) (wrapped vs i) \<in>
                   set (r_mainReceiver (after (OscReceive_setValue r path v)))
            else illegal_address_msg ''OscReceive'' (wrapped ps i) \<in>
                   set (printed (OscReceive_setValue r path v)) \<and>
                 reported (OscReceive_setValue r path v)) \<and>
         (\<forall>p w. p \<notin> set (r_address r) \<and>
            SetValue_call p w \<in> set (r_mainReceiver (after (OscReceive_setValue r path v))) \<longrightarrow>
            SetValue_call p w \<in> set (r_mainReceiver r))"
proof -
  let ?n = "max (length ps) (length vs)"
  have eq: "OscReceive_setValue r path v =
           Effect
             (r\<lparr>r_mainReceiver := r_mainReceiver r @
                  map (\<lambda>i. SetValue_call (wrapped ps i) (wrapped vs i))
                    (filter (\<lambda>i. wrapped ps i \<in> set (r_address r)) [0..<?n])\<rparr>)
             (map (\<lambda>i. illegal_address_msg ''OscReceive'' (wrapped ps i))
                (filter (\<lambda>i. wrapped ps i \<notin> set (r_address r)) [0..<?n]))
             None"
    using assms by (simp add: OscReceive_setValue_def OscReceive_setValue_loop_effect)
  have each: "\<forall>i < ?n.
            if wrapped ps i \<in> set (r_address r)
            then SetValue_call (wrapped ps i) (wrapped vs i) \<in>
                   set (r_mainReceiver (after (OscReceive_setValue r path v)))
            else illegal_address_msg ''OscReceive'' (wrapped ps i) \<in>
                   set (printed (OscReceive_setValue r path v)) \<and>
                 reported (OscReceive_setValue r path v)"
  proof (intro allI impI)
    fix i assume i: "i < ?n"
    then have mem: "i \<in> set [0..<?n]" by simp
    show "if wrapped ps i \<in> set (r_address r)
            then SetValue_call (wrapped ps i) (wrapped vs i) \<in>
                   set (r_mainReceiver (after (OscReceive_setValue r path v)))
            else illegal_address_msg ''OscReceive'' (wrapped ps i) \<in>
                   set (printed (OscReceive_setValue r path v)) \<and>
                 reported (OscReceive_setValue r path v)"
    proof (cases "wrapped ps i \<in> set (r_address r)")
      case True
      with mem show ?thesis unfolding eq by (simp del: set_upt)
    next
      case False
      with mem have "i \<in> set (filter (\<lambda>i. wrapped ps i \<notin> set (r_address r)) [0..<?n])"
        by simp
      then have "filter (\<lambda>i. wrapped ps i \<notin> set (r_address r)) [0..<?n] \<noteq> []"
        by (metis empty_iff empty_set)
      with False mem show ?thesis
        unfolding eq reported_def by (simp del: set_upt)
    qed
  qed
  have none: "\<forall>p w. p \<notin> set (r_address r) \<and>
            SetValue_call p w \<in> set (r_mainReceiver (after (OscReceive_setValue r path v))) \<longrightarrow>
            SetValue_call p w \<in> set (r_mainReceiver r)"
    unfolding eq by auto
  have rest: "\<not> fatal (OscReceive_setValue r path v) \<and>
         r_address (after (OscReceive_setValue r path v)) = r_address r \<and>
         r_base_objs (after (OscReceive_setValue r path v)) = r_base_objs r"
    unfolding eq by (simp add: fatal_def)
  show ?thesis
    using eq each none rest by blast
qed

theorem OscReceive_setValue_effect_witness:
  "OscReceive_setValue example_receive (Multi [''/x'', ''/amp'', ''/y'', ''/pitch''])
     (ListV [FloatV 1, FloatV 2, FloatV 3, FloatV 4]) =
   Effect
     (example_receive\<lparr>r_mainReceiver := r_mainReceiver example_receive @
        [SetValue_call ''/amp'' (FloatV 2), SetValue_call ''/pitch'' (FloatV 4)]\<rparr>)
     [illegal_address_msg ''OscReceive'' ''/x'', illegal_address_msg ''OscReceive'' ''/y'']
     None"
  using OscReceive_setValue_effect [where path = "Multi [''/x'', ''/amp'', ''/y'', ''/pitch'']"
      and v = "ListV [FloatV 1, FloatV 2, FloatV 3, FloatV 4]" and r = example_receive
      and ps = "[''/x'', ''/amp'', ''/y'', ''/pitch'']"
      and vs = "[FloatV 1, FloatV 2, FloatV 3, FloatV 4]"]
  by (simp add: example_receive_def wrapped_def upt_rec)

text \<open>
  On an \<open>OscListReceive\<close> of width \<open>num\<close>, \<open>setValue\<close> takes for a path the value itself
  or, when the first element of the value is a list, the element of the path. For one
  registered path and a value that is not empty, a list so taken whose length is not
  \<open>num\<close> is refused: the line of the mismatch is printed, nothing is raised and the object
  is as before, so a following \<open>get\<close> returns what it returned before.
\<close>

lemma OscListReceive_setValue_wrong_length:
  assumes "convertArgsToLists path = [p]" and "p \<in> set (l_address l)"
    and "v = ListV (x # xs)" and "val = (if is_ListType x then x else v)"
    and "py_len val = Inr n" and "int n \<noteq> l_num l"
  shows "OscListReceive_setValue l path v = Effect l [length_msg] None \<and>
         OscListReceive_get getValue (after (OscListReceive_setValue l path v)) (Some p) all =
           OscListReceive_get getValue l (Some p) all"
proof -
  have "OscListReceive_val v 0 = Inr val"
    using assms(3,4) by (simp add: OscListReceive_val_def wrap_def)
  then have "OscListReceive_setValue l path v = Effect l [length_msg] None"
    using assms(1,2,5,6) by (simp add: OscListReceive_setValue_def wrap_def say_def)
  then show ?thesis by simp
qed

text \<open>
  C2. On an \<open>OscListReceive\<close> of width \<open>num\<close>, \<open>setValue\<close> with a registered path and a value
  list whose length is not \<open>num\<close> is to drop the update, report the mismatch and leave the
  slot as it was. The source reads \<open>value[0]\<close> before it compares the lengths. On the
  receiver of width two, the empty list has the wrong length, and \<open>setValue('/amp', [])\<close>
  ends with \<open>IndexError\<close>: the line of the mismatch is not printed, and of a list of paths
  only the first is reached. The values \<open>[1.0]\<close> and \<open>[[1.0]]\<close> have the wrong length too and
  are refused with the line of the mismatch. On the receiver of width zero the empty list
  has the right length and ends with \<open>IndexError\<close> all the same.
\<close>

theorem OscListReceive_setValue_empty_list:
  "''/amp'' \<in> set (l_address example_list) \<and>
   l_num example_list = 2 \<and>
   py_len (ListV []) = Inr 0 \<and>
   OscListReceive_setValue example_list (Single ''/amp'') (ListV []) =
     Effect example_list [] (Some IndexError) \<and>
   OscListReceive_setValue example_list (Multi [''/amp'', ''/pitch'']) (ListV []) =
     Effect example_list [] (Some IndexError) \<and>
   OscListReceive_setValue example_list (Single ''/amp'') (ListV [FloatV 1]) =
     Effect example_list [length_msg] None \<and>
   OscListReceive_setValue example_list (Single ''/amp'') (ListV [ListV [FloatV 1]]) =
     Effect example_list [length_msg] None \<and>
   OscListReceive_setValue example_list0 (Single ''/pitch'') (ListV []) =
     Effect example_list0 [] (Some IndexError)"
  by (simp add: example_list_def example_list0_def OscListReceive_setValue_def wrap_def
      OscListReceive_val_def say_def Let_def)

theorem OscListReceive_setValue_empty_list_witness:
  "raised (OscListReceive_setValue example_list (Single ''/amp'') (ListV [])) = Some IndexError \<and>
   printed (OscListReceive_setValue example_list (Single ''/amp'') (ListV [])) = [] \<and>
   printed (OscListReceive_setValue example_list (Single ''/amp'') (ListV [FloatV 1])) =
     [length_msg]"
  using OscListReceive_setValue_empty_list by simp

section \<open>Sending to all targets\<close>

lemma OscDataSend_send_all_effect:
  "OscDataSend_send_all objs msg s =
     Effect
       (s\<lparr>ds_sent := ds_sent s @
            map (\<lambda>obj. (sb_oid obj, msg))
              (filter (\<lambda>obj. signature_matches (sb_types obj) msg) objs)\<rparr>)
       (map mismatch_msg (filter (\<lambda>obj. \<not> signature_matches (sb_types obj) msg) objs))
       None"
proof (induction objs arbitrary: s)
  case Nil
  then show ?case by simp
next
  case (Cons obj objs)
  show ?case
    by (cases "signature_matches (sb_types obj) msg")
      (simp_all add: OscDataSend_base_send_def Cons.IH Let_def)
qed

lemma count_list_sent:
  "distinct (map sb_oid objs) \<Longrightarrow> obj \<in> set objs \<Longrightarrow>
   count_list (map (\<lambda>obj. (sb_oid obj, msg)) (filter P objs)) (sb_oid obj, msg) =
     (if P obj then 1 else 0)"
proof (induction objs)
  case Nil
  then show ?case by simp
next
  case (Cons x objs)
  have absent: "sb_oid y \<notin> sb_oid ` set objs \<Longrightarrow>
      count_list (map (\<lambda>obj. (sb_oid obj, msg)) (filter P objs)) (sb_oid y, msg) = 0" for y
    by (induction objs) auto
  show ?case
  proof (cases "obj = x")
    case True
    then show ?thesis
      using Cons.prems absent [of x] by simp
  next
    case False
    then have "obj \<in> set objs" and "sb_oid x \<noteq> sb_oid obj"
      using Cons.prems by auto
    then show ?thesis
      using Cons by simp
  qed
qed

text \<open>
  C5. \<open>OscDataSend.send(msg)\<close> with no address calls \<open>send\<close> on every object of
  \<open>_base_objs\<close> in turn and never raises: every target whose signature the message matches
  is handed the message exactly once, every other target has its mismatch reported by a
  line of its own, and a mismatch at one target does not keep the message from the targets
  after it. \<open>send(msg, address=a)\<close> with a registered address calls \<open>send\<close> on the one object
  bound to \<open>a\<close>.
\<close>

theorem OscDataSend_send_fan_out:
  assumes "distinct (map sb_oid (ds_base_objs s))"
  shows "OscDataSend_send s msg None =
           Effect
             (s\<lparr>ds_sent := ds_sent s @
                  map (\<lambda>obj. (sb_oid obj, msg))
                    (filter (\<lambda>obj. signature_matches (sb_types obj) msg) (ds_base_objs s))\<rparr>)
             (map mismatch_msg
                (filter (\<lambda>obj. \<not> signature_matches (sb_types obj) msg) (ds_base_objs s)))
             None \<and>
         (\<forall>obj \<in> set (ds_base_objs s).
            count_list (drop (length (ds_sent s)) (ds_sent (after (OscDataSend_send s msg None))))
              (sb_oid obj, msg) =
            (if signature_matches (sb_types obj) msg then 1 else 0)) \<and>
         (\<forall>obj \<in> set (ds_base_objs s).
            \<not> signature_matches (sb_types obj) msg \<longrightarrow>
            mismatch_msg obj \<in> set (printed (OscDataSend_send s msg None))) \<and>
         (ds_addresses s a = Some t \<longrightarrow>
            OscDataSend_send s msg (Some a) =
              (if signature_matches (sb_types t) msg
               then Effect (s\<lparr>ds_sent := ds_sent s @ [(sb_oid t, msg)]\<rparr>) [] None
               else Effect s [mismatch_msg t] None))"
proof -
  have eq: "OscDataSend_send s msg None =
           Effect
             (s\<lparr>ds_sent := ds_sent s @
                  map (\<lambda>obj. (sb_oid obj, msg))
                    (filter (\<lambda>obj. signature_matches (sb_types obj) msg) (ds_base_objs s))\<rparr>)
             (map mismatch_msg
                (filter (\<lambda>obj. \<not> signature_matches (sb_types obj) msg) (ds_base_objs s)))
             None"
    by (simp add: OscDataSend_send_def OscDataSend_send_all_effect)
  have once: "\<forall>obj \<in> set (ds_base_objs s).
            count_list (drop (length (ds_sent s)) (ds_sent (after (OscDataSend_send s msg None))))
              (sb_oid obj, msg) =
            (if signature_matches (sb_types obj) msg then 1 else 0)"
  proof
    fix obj assume "obj \<in> set (ds_base_objs s)"
    then show "count_list
        (drop (length (ds_sent s)) (ds_sent (after (OscDataSend_send s msg None))))
        (sb_oid obj, msg) =
        (if signature_matches (sb_types obj) msg then 1 else 0)"
      unfolding eq
      using count_list_sent [OF assms, where obj = obj and msg = msg
          and P = "\<lambda>obj. signature_matches (sb_types obj) msg"]
      by simp
  qed
  have rep: "\<forall>obj \<in> set (ds_base_objs s).
            \<not> signature_matches (sb_types obj) msg \<longrightarrow>
            mismatch_msg obj \<in> set (printed (OscDataSend_send s msg None))"
    unfolding eq by simp
  have one: "ds_addresses s a = Some t \<longrightarrow>
            OscDataSend_send s msg (Some a) =
              (if signature_matches (sb_types t) msg
               then Effect (s\<lparr>ds_sent := ds_sent s @ [(sb_oid t, msg)]\<rparr>) [] None
               else Effect s [mismatch_msg t] None)"
    by (simp add: OscDataSend_send_def OscDataSend_base_send_def)
  show ?thesis
    using eq once rep one by blast
qed

theorem OscDataSend_send_fan_out_witness:
  "OscDataSend_send example_data_send [IntV 3] None =
     Effect (example_data_send\<lparr>ds_sent := [(1, [IntV 3])]\<rparr>)
       [mismatch_msg example_target_freq] None \<and>
   OscDataSend_send example_data_send [FloatV 440] (Some ''/freq'') =
     Effect (example_data_send\<lparr>ds_sent := [(0, [FloatV 440])]\<rparr>) [] None"
  using OscDataSend_send_fan_out [where s = example_data_send and msg = "[IntV 3]"]
    OscDataSend_send_fan_out [where s = example_data_send and msg = "[FloatV 440]"
      and a = "''/freq''" and t = example_target_freq]
  by (simp add: example_data_send_def example_target_freq_def example_target_count_def
      signature_matches_def tag_accepts_def)

section \<open>The window of an address\<close>

lemma length_block [simp]: "length (block num a) = nat num"
  by (simp add: block_def py_range_def)

lemma length_concat_blocks:
  "(\<And>a. length (g a) = n) \<Longrightarrow> length (concat (map g as)) = length as * n"
  by (induction as) simp_all

lemma inv_list_length:
  "inv_list l \<Longrightarrow> length (l_base_objs l) = length (l_address l) * nat (l_num l)"
proof -
  assume "inv_list l"
  then have "length (map (\<lambda>obj. (lb_address obj, lb_index obj)) (l_base_objs l)) =
      length (concat (map (block (l_num l)) (l_address l)))"
    by (simp add: inv_list_def)
  then show ?thesis
    by (simp add: length_concat_blocks [where n = "nat (l_num l)"])
qed

lemma slice_bound_nat: "m \<le> n \<Longrightarrow> slice_bound n (int m) = m"
  by (simp add: slice_bound_def)

lemma py_slice_block:
  assumes "0 \<le> num" and "(Suc k) * nat num \<le> length xs"
  shows "py_slice xs (int k * num) (int k * num + num) = take (nat num) (drop (k * nat num) xs)"
proof -
  have a: "int k * num = int (k * nat num)" using assms(1) by simp
  have b: "int k * num + num = int (k * nat num + nat num)" using assms(1) by simp
  have le: "k * nat num + nat num \<le> length xs" using assms(2) by (simp add: add.commute)
  then have le': "k * nat num \<le> length xs" by linarith
  have lo: "slice_bound (length xs) (int k * num) = k * nat num"
    by (simp only: a slice_bound_nat [OF le'])
  have hi: "slice_bound (length xs) (int k * num + num) = k * nat num + nat num"
    by (simp only: b slice_bound_nat [OF le])
  show ?thesis
    by (simp add: py_slice_def lo hi)
qed

text \<open>
  Let an \<open>OscListReceive\<close> of width \<open>num \<ge> 1\<close> hold at least \<open>num\<close> stream objects for each of
  its addresses, and let \<open>A\<close> be registered at position \<open>k\<close>. Indexing by \<open>A\<close> returns exactly the
  \<open>num\<close> streams at the flat positions \<open>k * num, ..., k * num + num - 1\<close>, indexing by the
  ordinal \<open>k\<close> returns the same window, and \<open>get(A)\<close> returns the list of the \<open>num\<close> values of
  those streams in order.
\<close>

lemma OscListReceive_window_of_address:
  assumes "length (l_address l) * nat (l_num l) \<le> length (l_base_objs l)"
    and "0 < l_num l" and "py_index (l_address l) A = Inr k"
  shows "OscListReceive_getitem l (Name A) =
           Reply (Some (take (nat (l_num l)) (drop (k * nat (l_num l)) (l_base_objs l)))) [] \<and>
         length (take (nat (l_num l)) (drop (k * nat (l_num l)) (l_base_objs l))) =
           nat (l_num l) \<and>
         (\<forall>j < nat (l_num l).
            take (nat (l_num l)) (drop (k * nat (l_num l)) (l_base_objs l)) ! j =
            l_base_objs l ! (k * nat (l_num l) + j)) \<and>
         OscListReceive_getitem l (Ordinal (int k)) = OscListReceive_getitem l (Name A) \<and>
         OscListReceive_get getValue l (Some A) False =
           Reply (ListV (map (\<lambda>obj. FloatV (getValue obj))
             (take (nat (l_num l)) (drop (k * nat (l_num l)) (l_base_objs l))))) []"
proof -
  let ?n = "nat (l_num l)"
  let ?w = "take ?n (drop (k * ?n) (l_base_objs l))"
  have k: "k < length (l_address l)"
    using py_index_Inr [OF assms(3)] by simp
  then have "Suc k \<le> length (l_address l)" by simp
  then have "Suc k * ?n \<le> length (l_address l) * ?n"
    by (rule mult_le_mono1)
  then have fit: "Suc k * ?n \<le> length (l_base_objs l)"
    using assms(1) by linarith
  have nonneg: "0 \<le> l_num l" using assms(2) by simp
  have slice: "py_slice (l_base_objs l) (int k * l_num l) (int k * l_num l + l_num l) = ?w"
    using nonneg fit by (rule py_slice_block)
  have name: "OscListReceive_getitem l (Name A) = Reply (Some ?w) []"
    using assms(3) slice by (simp add: OscListReceive_getitem_def)
  have lenw: "length ?w = ?n"
    using fit by (simp add: add.commute)
  have nth: "\<forall>j < ?n. ?w ! j = l_base_objs l ! (k * ?n + j)"
    using fit by (simp add: add.commute)
  have get: "OscListReceive_get getValue l (Some A) False =
      Reply (ListV (map (\<lambda>obj. FloatV (getValue obj)) ?w)) []"
    using assms(3) slice by (simp add: OscListReceive_get_def OscListReceive_window_def)
  have "1 \<le> ?n" using assms(2) by simp
  then have "length (l_address l) * 1 \<le> length (l_address l) * ?n"
    by (rule mult_le_mono2)
  then have "length (l_address l) \<le> length (l_address l) * ?n"
    by (simp only: mult_1_right)
  then have "length (l_address l) \<le> length (l_base_objs l)"
    using assms(1) by (rule le_trans)
  then have "k < length (l_base_objs l)"
    using k by linarith
  then have ord: "OscListReceive_getitem l (Ordinal (int k)) = Reply (Some ?w) []"
    using slice by (simp add: OscListReceive_getitem_def)
  show ?thesis
    using name lenw nth get ord by simp
qed

section \<open>Adding and deleting addresses\<close>

lemma py_pop_nat:
  "py_pop xs (int k) = (if k < length xs then Inr (take k xs @ drop (Suc k) xs) else Inl IndexError)"
  by (simp add: py_pop_def py_position_def)

lemma subseq_without: "subseq (take k xs @ drop (Suc k) xs) xs"
proof (induction xs arbitrary: k)
  case Nil
  then show ?case by simp
next
  case (Cons x xs)
  then show ?case
    by (cases k) (simp_all add: list_emb_Cons)
qed

lemma remove1_py_index:
  "py_index xs p = Inr k \<Longrightarrow> take k xs @ drop (Suc k) xs = remove1 p xs"
  by (induction xs arbitrary: k) (auto split: if_splits sum.splits)

lemma OscReceive_base_wrapped:
  "mul \<noteq> [] \<Longrightarrow> add \<noteq> [] \<Longrightarrow>
   OscReceive_base p mul add i =
     Inr \<lparr>rb_address = p, rb_mul = wrapped mul i, rb_add = wrapped add i\<rparr>"
  by (simp add: OscReceive_base_def wrap_def wrapped_def)

lemma OscReceive_addAddress_loop_inv:
  "inv_receive r \<Longrightarrow> mul \<noteq> [] \<Longrightarrow> add \<noteq> [] \<Longrightarrow>
   inv_receive (after (OscReceive_addAddress_loop ps mul add r))"
proof (induction ps arbitrary: r)
  case Nil
  then show ?case by simp
next
  case (Cons ip ps)
  obtain i p where ip: "ip = (i, p)" by (cases ip)
  show ?case
  proof (cases "p \<in> set (r_address r)")
    case True
    then show ?thesis using Cons ip by simp
  next
    case False
    let ?r = "r\<lparr>r_mainReceiver := r_mainReceiver r @ [AddAddress_call p],
               r_address := r_address r @ [p],
               r_base_objs := r_base_objs r @
                 [\<lparr>rb_address = p, rb_mul = wrapped mul i, rb_add = wrapped add i\<rparr>]\<rparr>"
    have "inv_receive ?r"
      using Cons.prems(1) by (simp add: inv_receive_def)
    then have "inv_receive (after (OscReceive_addAddress_loop ps mul add ?r))"
      using Cons.IH Cons.prems by blast
    then show ?thesis
      using False ip Cons.prems by (simp add: OscReceive_base_wrapped)
  qed
qed

lemma OscReceive_addAddress_loop_prefix:
  "prefix (r_address r) (r_address (after (OscReceive_addAddress_loop ps mul add r)))"
proof (induction ps arbitrary: r)
  case Nil
  then show ?case by simp
next
  case (Cons ip ps)
  obtain i p where ip: "ip = (i, p)" by (cases ip)
  show ?case
  proof (cases "p \<in> set (r_address r)")
    case True
    then show ?thesis using Cons ip by simp
  next
    case False
    show ?thesis
    proof (cases "OscReceive_base p mul add i")
      case (Inl e)
      then show ?thesis using False ip by simp
    next
      case (Inr obj)
      let ?r = "r\<lparr>r_mainReceiver := r_mainReceiver r @ [AddAddress_call p],
               r_address := r_address r @ [p],
               r_base_objs := r_base_objs r @ [obj]\<rparr>"
      have "prefix (r_address ?r) (r_address (after (OscReceive_addAddress_loop ps mul add ?r)))"
        by (rule Cons.IH)
      then have "prefix (r_address r) (r_address (after (OscReceive_addAddress_loop ps mul add ?r)))"
        by (simp add: append_prefixD)
      then show ?thesis using False ip Inr by simp
    qed
  qed
qed

lemma OscReceive_delAddress_loop_inv:
  "inv_receive r \<Longrightarrow> inv_receive (after (OscReceive_delAddress_loop inds r))"
proof (induction inds arbitrary: r)
  case Nil
  then show ?case by simp
next
  case (Cons ind inds)
  have len: "length (r_base_objs r) = length (r_address r)"
    using Cons.prems by (metis inv_receive_def length_map)
  show ?case
  proof (cases "ind < length (r_address r)")
    case False
    then show ?thesis using Cons.prems by (simp add: py_pop_nat)
  next
    case True
    let ?r = "r\<lparr>r_address := take ind (r_address r) @ drop (Suc ind) (r_address r),
               r_base_objs := take ind (r_base_objs r) @ drop (Suc ind) (r_base_objs r)\<rparr>"
    have "inv_receive ?r"
      using Cons.prems by (simp add: inv_receive_def take_map [symmetric] drop_map [symmetric])
    then have "inv_receive (after (OscReceive_delAddress_loop inds ?r))"
      by (rule Cons.IH)
    then show ?thesis
      using True len by (simp add: py_pop_nat)
  qed
qed

lemma OscReceive_delAddress_loop_subseq:
  "subseq (r_address (after (OscReceive_delAddress_loop inds r))) (r_address r)"
proof (induction inds arbitrary: r)
  case Nil
  then show ?case by simp
next
  case (Cons ind inds)
  show ?case
  proof (cases "ind < length (r_address r)")
    case False
    then show ?thesis by (simp add: py_pop_nat)
  next
    case True
    let ?a = "take ind (r_address r) @ drop (Suc ind) (r_address r)"
    let ?r1 = "r\<lparr>r_address := ?a\<rparr>"
    show ?thesis
    proof (cases "ind < length (r_base_objs r)")
      case False
      then show ?thesis using True by (simp add: py_pop_nat subseq_without)
    next
      case ok: True
      let ?r = "?r1\<lparr>r_base_objs := take ind (r_base_objs r) @ drop (Suc ind) (r_base_objs r)\<rparr>"
      have "subseq (r_address (after (OscReceive_delAddress_loop inds ?r))) (r_address ?r)"
        by (rule Cons.IH)
      then have "subseq (r_address (after (OscReceive_delAddress_loop inds ?r))) (r_address r)"
        using subseq_without [of ind "r_address r"] by (simp add: subseq_order.order_trans)
      then show ?thesis using True ok by (simp add: py_pop_nat)
    qed
  qed
qed

lemma OscReceive_addAddress_inv:
  "inv_receive r \<Longrightarrow> convertValToList mul \<noteq> [] \<Longrightarrow> convertValToList add \<noteq> [] \<Longrightarrow>
   inv_receive (after (OscReceive_addAddress r path mul add))"
  by (simp add: OscReceive_addAddress_def OscReceive_addAddress_loop_inv Let_def)

lemma OscReceive_delAddress_inv:
  "inv_receive r \<Longrightarrow> inv_receive (after (OscReceive_delAddress r path))"
proof -
  assume inv: "inv_receive r"
  let ?r = "r\<lparr>r_mainReceiver := r_mainReceiver r @ [DelAddress_call (convertArgsToLists path)]\<rparr>"
  have "inv_receive ?r" using inv by (simp add: inv_receive_def)
  then have "inv_receive (after (OscReceive_delAddress_loop inds ?r))" for inds
    by (rule OscReceive_delAddress_loop_inv)
  then show ?thesis
    using inv by (simp add: OscReceive_delAddress_def Let_def inv_receive_def split: sum.splits)
qed

lemma OscReceive_calls_inv:
  "inv_receive r \<Longrightarrow> list_all call_ok cs \<Longrightarrow> inv_receive (OscReceive_calls cs r)"
proof (induction cs arbitrary: r)
  case Nil
  then show ?case by simp
next
  case (Cons c cs)
  then show ?case
    by (cases c) (simp_all add: OscReceive_addAddress_inv OscReceive_delAddress_inv)
qed

lemma OscReceive_delAddress_subseq:
  "subseq (r_address (after (OscReceive_delAddress r path))) (r_address r)"
proof -
  let ?r = "r\<lparr>r_mainReceiver := r_mainReceiver r @ [DelAddress_call (convertArgsToLists path)]\<rparr>"
  have "subseq (r_address (after (OscReceive_delAddress_loop inds ?r))) (r_address ?r)" for inds
    by (rule OscReceive_delAddress_loop_subseq)
  then show ?thesis
    by (simp add: OscReceive_delAddress_def Let_def split: sum.splits)
qed

lemma OscReceive_delAddress_known:
  assumes "inv_receive r" and "p \<in> set (r_address r)"
  shows "raised (OscReceive_delAddress r (Single p)) = None \<and>
         r_address (after (OscReceive_delAddress r (Single p))) = remove1 p (r_address r)"
proof -
  obtain k where k: "py_index (r_address r) p = Inr k"
    using assms(2) py_index_in by fastforce
  have lt: "k < length (r_address r)" using py_index_Inr [OF k] by simp
  have len: "length (r_base_objs r) = length (r_address r)"
    using assms(1) by (metis inv_receive_def length_map)
  show ?thesis
    using k lt len remove1_py_index [OF k]
    by (simp add: OscReceive_delAddress_def py_pop_nat)
qed

lemma OscReceive_addAddress_new:
  assumes "p \<notin> set (r_address r)" and "convertValToList mul \<noteq> []" and "convertValToList add \<noteq> []"
  shows "raised (OscReceive_addAddress r (Single p) mul add) = None \<and>
         r_address (after (OscReceive_addAddress r (Single p) mul add)) = r_address r @ [p]"
  using assms by (simp add: OscReceive_addAddress_def OscReceive_base_wrapped)


lemma traverse_Inr: "(\<And>x. f x = Inr (g x)) \<Longrightarrow> traverse f xs = Inr (map g xs)"
  by (induction xs) simp_all

lemma OscListReceive_base_wrapped:
  "mul \<noteq> [] \<Longrightarrow> add \<noteq> [] \<Longrightarrow>
   OscListReceive_base p mul add i j =
     Inr \<lparr>lb_address = p, lb_index = j, lb_mul = wrapped mul i, lb_add = wrapped add i\<rparr>"
  by (simp add: OscListReceive_base_def wrap_def wrapped_def)

lemma new_block:
  "map (\<lambda>obj. (lb_address obj, lb_index obj))
     (map (\<lambda>j. \<lparr>lb_address = p, lb_index = j, lb_mul = m, lb_add = d\<rparr>) (py_range num)) =
   block num p"
  by (simp add: block_def)

lemma take_concat_blocks:
  "(\<And>a. length (g a) = n) \<Longrightarrow> take (k * n) (concat (map g as)) = concat (map g (take k as))"
proof (induction as arbitrary: k)
  case Nil
  then show ?case by simp
next
  case (Cons a as)
  show ?case
  proof (cases k)
    case 0
    then show ?thesis by simp
  next
    case (Suc m)
    have "take (m * n) (concat (map g as)) = concat (map g (take m as))"
      using Cons.IH Cons.prems by blast
    then show ?thesis
      using Suc Cons.prems [of a] by simp
  qed
qed

lemma drop_concat_blocks:
  "(\<And>a. length (g a) = n) \<Longrightarrow> drop (k * n) (concat (map g as)) = concat (map g (drop k as))"
proof (induction as arbitrary: k)
  case Nil
  then show ?case by simp
next
  case (Cons a as)
  show ?case
  proof (cases k)
    case 0
    then show ?thesis by simp
  next
    case (Suc m)
    have "drop (m * n) (concat (map g as)) = concat (map g (drop m as))"
      using Cons.IH Cons.prems by blast
    then show ?thesis
      using Suc Cons.prems [of a] by simp
  qed
qed

lemma py_pops_range:
  "m + n \<le> length xs \<Longrightarrow>
   py_pops xs (rev (map (\<lambda>j. int m + int j) [0..<n])) = (take m xs @ drop (m + n) xs, None)"
proof (induction n arbitrary: xs)
  case 0
  then show ?case by simp
next
  case (Suc n)
  let ?xs = "take (m + n) xs @ drop (Suc (m + n)) xs"
  have lt: "m + n < length xs" using Suc.prems by simp
  have pop: "py_pop xs (int m + int n) = Inr ?xs"
    using lt py_pop_nat [of xs "m + n"] by simp
  have "m + n \<le> length ?xs" using Suc.prems by simp
  then have "py_pops ?xs (rev (map (\<lambda>j. int m + int j) [0..<n])) =
      (take m ?xs @ drop (m + n) ?xs, None)"
    by (rule Suc.IH)
  moreover have "take m ?xs @ drop (m + n) ?xs = take m xs @ drop (m + Suc n) xs"
    using lt by (simp add: min_def)
  ultimately show ?case
    using pop by simp
qed

lemma py_pops_block:
  assumes "Suc k * nat num \<le> length xs"
  shows "py_pops xs (rev (py_range2 (int k * num) (int k * num + num))) =
           (take (k * nat num) xs @ drop (k * nat num + nat num) xs, None)"
proof (cases "0 < num")
  case False
  then show ?thesis by (simp add: py_range2_def)
next
  case True
  then have a: "int k * num = int (k * nat num)" by simp
  have le: "k * nat num + nat num \<le> length xs" using assms by (simp add: add.commute)
  have "py_range2 (int k * num) (int k * num + num) =
      map (\<lambda>j. int (k * nat num) + int j) [0..<nat num]"
    by (simp only: py_range2_def a) simp
  then show ?thesis
    using py_pops_range [OF le] by simp
qed

lemma inv_list_without:
  assumes "inv_list l" and "k < length (l_address l)"
  shows "inv_list (l\<lparr>l_address := take k (l_address l) @ drop (Suc k) (l_address l),
           l_base_objs := take (k * nat (l_num l)) (l_base_objs l) @
             drop (k * nat (l_num l) + nat (l_num l)) (l_base_objs l)\<rparr>)"
proof -
  let ?n = "nat (l_num l)"
  let ?f = "\<lambda>obj. (lb_address obj, lb_index obj)"
  let ?g = "block (l_num l)"
  have eq: "map ?f (l_base_objs l) = concat (map ?g (l_address l))"
    using assms(1) by (simp add: inv_list_def)
  have t: "map ?f (take (k * ?n) (l_base_objs l)) = concat (map ?g (take k (l_address l)))"
    by (simp only: take_map [symmetric] eq take_concat_blocks [where n = "?n", OF length_block])
  have "map ?f (drop (Suc k * ?n) (l_base_objs l)) = concat (map ?g (drop (Suc k) (l_address l)))"
    by (simp only: drop_map [symmetric] eq drop_concat_blocks [where n = "?n", OF length_block])
  then have d: "map ?f (drop (k * ?n + ?n) (l_base_objs l)) =
      concat (map ?g (drop (Suc k) (l_address l)))"
    by (simp add: add.commute)
  show ?thesis
    using t d by (simp add: inv_list_def)
qed

lemma OscListReceive_delAddress_step:
  assumes "inv_list l" and "k < length (l_address l)"
  shows "py_pops (l_base_objs l)
           (rev (py_range2 (int k * l_num l) (int k * l_num l + l_num l))) =
         (take (k * nat (l_num l)) (l_base_objs l) @
            drop (k * nat (l_num l) + nat (l_num l)) (l_base_objs l), None)"
proof -
  have "Suc k \<le> length (l_address l)" using assms(2) by simp
  then have "Suc k * nat (l_num l) \<le> length (l_address l) * nat (l_num l)"
    by (rule mult_le_mono1)
  then have "Suc k * nat (l_num l) \<le> length (l_base_objs l)"
    using inv_list_length [OF assms(1)] by simp
  then show ?thesis by (rule py_pops_block)
qed

lemma OscListReceive_delAddress_loop_inv:
  "inv_list l \<Longrightarrow> inv_list (after (OscListReceive_delAddress_loop inds l))"
proof (induction inds arbitrary: l)
  case Nil
  then show ?case by simp
next
  case (Cons ind inds)
  show ?case
  proof (cases "ind < length (l_address l)")
    case False
    then show ?thesis using Cons.prems by (simp add: py_pop_nat)
  next
    case True
    let ?l = "l\<lparr>l_address := take ind (l_address l) @ drop (Suc ind) (l_address l),
           l_base_objs := take (ind * nat (l_num l)) (l_base_objs l) @
             drop (ind * nat (l_num l) + nat (l_num l)) (l_base_objs l)\<rparr>"
    have "inv_list ?l"
      using Cons.prems True by (rule inv_list_without)
    then have "inv_list (after (OscListReceive_delAddress_loop inds ?l))"
      by (rule Cons.IH)
    then show ?thesis
      using True OscListReceive_delAddress_step [OF Cons.prems True]
      by (simp add: py_pop_nat Let_def)
  qed
qed

lemma OscListReceive_delAddress_loop_subseq:
  "subseq (l_address (after (OscListReceive_delAddress_loop inds l))) (l_address l)"
proof (induction inds arbitrary: l)
  case Nil
  then show ?case by simp
next
  case (Cons ind inds)
  show ?case
  proof (cases "ind < length (l_address l)")
    case False
    then show ?thesis by (simp add: py_pop_nat)
  next
    case True
    let ?a = "take ind (l_address l) @ drop (Suc ind) (l_address l)"
    let ?popped = "py_pops (l_base_objs l)
        (rev (py_range2 (int ind * l_num l) (int ind * l_num l + l_num l)))"
    let ?l = "l\<lparr>l_address := ?a, l_base_objs := fst ?popped\<rparr>"
    have "subseq (l_address (after (OscListReceive_delAddress_loop inds ?l))) (l_address ?l)"
      by (rule Cons.IH)
    then have "subseq (l_address (after (OscListReceive_delAddress_loop inds ?l))) (l_address l)"
      using subseq_without [of ind "l_address l"] by (simp add: subseq_order.order_trans)
    then show ?thesis
      using True by (simp add: py_pop_nat Let_def subseq_without split: option.splits)
  qed
qed

lemma OscListReceive_addAddress_loop_inv:
  "inv_list l \<Longrightarrow> mul \<noteq> [] \<Longrightarrow> add \<noteq> [] \<Longrightarrow>
   inv_list (after (OscListReceive_addAddress_loop ps mul add l))"
proof (induction ps arbitrary: l)
  case Nil
  then show ?case by simp
next
  case (Cons ip ps)
  obtain i p where ip: "ip = (i, p)" by (cases ip)
  show ?case
  proof (cases "p \<in> set (l_address l)")
    case True
    then show ?thesis using Cons ip by simp
  next
    case False
    let ?objs = "map (\<lambda>j. \<lparr>lb_address = p, lb_index = j, lb_mul = wrapped mul i,
                   lb_add = wrapped add i\<rparr>) (py_range (l_num l))"
    let ?l = "l\<lparr>l_mainReceiver := l_mainReceiver l @ [AddAddress_call p],
               l_address := l_address l @ [p],
               l_base_objs := l_base_objs l @ ?objs\<rparr>"
    have tr: "traverse (OscListReceive_base p mul add i) (py_range (l_num l)) = Inr ?objs"
      using Cons.prems by (intro traverse_Inr) (simp add: OscListReceive_base_wrapped)
    have "inv_list ?l"
      using Cons.prems(1) by (simp add: inv_list_def new_block del: map_map)
    then have "inv_list (after (OscListReceive_addAddress_loop ps mul add ?l))"
      using Cons.IH Cons.prems by blast
    then show ?thesis
      using False ip tr by simp
  qed
qed

lemma OscListReceive_addAddress_loop_prefix:
  "prefix (l_address l) (l_address (after (OscListReceive_addAddress_loop ps mul add l)))"
proof (induction ps arbitrary: l)
  case Nil
  then show ?case by simp
next
  case (Cons ip ps)
  obtain i p where ip: "ip = (i, p)" by (cases ip)
  show ?case
  proof (cases "p \<in> set (l_address l)")
    case True
    then show ?thesis using Cons ip by simp
  next
    case False
    show ?thesis
    proof (cases "traverse (OscListReceive_base p mul add i) (py_range (l_num l))")
      case (Inl e)
      then show ?thesis using False ip by simp
    next
      case (Inr objs)
      let ?l = "l\<lparr>l_mainReceiver := l_mainReceiver l @ [AddAddress_call p],
               l_address := l_address l @ [p],
               l_base_objs := l_base_objs l @ objs\<rparr>"
      have "prefix (l_address ?l) (l_address (after (OscListReceive_addAddress_loop ps mul add ?l)))"
        by (rule Cons.IH)
      then have "prefix (l_address l) (l_address (after (OscListReceive_addAddress_loop ps mul add ?l)))"
        by (simp add: append_prefixD)
      then show ?thesis using False ip Inr by simp
    qed
  qed
qed


lemma OscListReceive_addAddress_inv:
  "inv_list l \<Longrightarrow> convertValToList mul \<noteq> [] \<Longrightarrow> convertValToList add \<noteq> [] \<Longrightarrow>
   inv_list (after (OscListReceive_addAddress l path mul add))"
  by (simp add: OscListReceive_addAddress_def OscListReceive_addAddress_loop_inv Let_def)

lemma OscListReceive_delAddress_inv:
  "inv_list l \<Longrightarrow> inv_list (after (OscListReceive_delAddress l path))"
proof -
  assume inv: "inv_list l"
  let ?l = "l\<lparr>l_mainReceiver := l_mainReceiver l @ [DelAddress_call (convertArgsToLists path)]\<rparr>"
  have "inv_list ?l" using inv by (simp add: inv_list_def)
  then have "inv_list (after (OscListReceive_delAddress_loop inds ?l))" for inds
    by (rule OscListReceive_delAddress_loop_inv)
  then show ?thesis
    using inv by (simp add: OscListReceive_delAddress_def Let_def inv_list_def split: sum.splits)
qed

lemma OscListReceive_calls_inv:
  "inv_list l \<Longrightarrow> list_all call_ok cs \<Longrightarrow> inv_list (OscListReceive_calls cs l)"
proof (induction cs arbitrary: l)
  case Nil
  then show ?case by simp
next
  case (Cons c cs)
  then show ?case
    by (cases c) (simp_all add: OscListReceive_addAddress_inv OscListReceive_delAddress_inv)
qed

lemma OscListReceive_delAddress_subseq:
  "subseq (l_address (after (OscListReceive_delAddress l path))) (l_address l)"
proof -
  let ?l = "l\<lparr>l_mainReceiver := l_mainReceiver l @ [DelAddress_call (convertArgsToLists path)]\<rparr>"
  have "subseq (l_address (after (OscListReceive_delAddress_loop inds ?l))) (l_address ?l)" for inds
    by (rule OscListReceive_delAddress_loop_subseq)
  then show ?thesis
    by (simp add: OscListReceive_delAddress_def Let_def split: sum.splits)
qed

lemma OscListReceive_delAddress_known:
  assumes "inv_list l" and "p \<in> set (l_address l)"
  shows "raised (OscListReceive_delAddress l (Single p)) = None \<and>
         l_address (after (OscListReceive_delAddress l (Single p))) = remove1 p (l_address l)"
proof -
  obtain k where k: "py_index (l_address l) p = Inr k"
    using assms(2) py_index_in by fastforce
  have lt: "k < length (l_address l)" using py_index_Inr [OF k] by simp
  show ?thesis
    using k lt remove1_py_index [OF k] OscListReceive_delAddress_step [OF assms(1) lt]
    by (simp add: OscListReceive_delAddress_def py_pop_nat Let_def)
qed

lemma OscListReceive_addAddress_new:
  assumes "p \<notin> set (l_address l)" and "convertValToList mul \<noteq> []" and "convertValToList add \<noteq> []"
  shows "raised (OscListReceive_addAddress l (Single p) mul add) = None \<and>
         l_address (after (OscListReceive_addAddress l (Single p) mul add)) = l_address l @ [p]"
proof -
  have "traverse (OscListReceive_base p (convertValToList mul) (convertValToList add) 0)
          (py_range (l_num l)) =
        Inr (map (\<lambda>j. \<lparr>lb_address = p, lb_index = j,
               lb_mul = wrapped (convertValToList mul) 0,
               lb_add = wrapped (convertValToList add) 0\<rparr>) (py_range (l_num l)))"
    using assms by (intro traverse_Inr) (simp add: OscListReceive_base_wrapped)
  then show ?thesis
    using assms by (simp add: OscListReceive_addAddress_def)
qed

text \<open>
  C9. Every sequence of \<open>addAddress\<close> and \<open>delAddress\<close> calls keeps the stream objects in
  step with the addresses. On an \<open>OscReceive\<close> the stream objects are as many as the
  addresses and stand in their order; on an \<open>OscListReceive\<close> they are \<open>num\<close> times as many
  and the streams \<open>0, ..., num - 1\<close> of each address fill the block at the position of
  that address. A \<open>delAddress\<close> leaves the remaining addresses in their order, an
  \<open>addAddress\<close> leaves the earlier addresses in front; deleting one registered path removes
  just that path, and adding one new path puts it last.
\<close>

theorem address_calls_keep_blocks:
  assumes "list_all call_ok cs"
  shows "(inv_receive r \<longrightarrow>
            inv_receive (OscReceive_calls cs r) \<and>
            length (r_base_objs (OscReceive_calls cs r)) =
              length (r_address (OscReceive_calls cs r))) \<and>
         (inv_list l \<longrightarrow>
            inv_list (OscListReceive_calls cs l) \<and>
            length (l_base_objs (OscListReceive_calls cs l)) =
              length (l_address (OscListReceive_calls cs l)) *
                nat (l_num (OscListReceive_calls cs l))) \<and>
         subseq (r_address (after (OscReceive_delAddress r path))) (r_address r) \<and>
         subseq (l_address (after (OscListReceive_delAddress l path))) (l_address l) \<and>
         prefix (r_address r) (r_address (after (OscReceive_addAddress r path mul add))) \<and>
         prefix (l_address l) (l_address (after (OscListReceive_addAddress l path mul add))) \<and>
         (inv_receive r \<and> p \<in> set (r_address r) \<longrightarrow>
            raised (OscReceive_delAddress r (Single p)) = None \<and>
            r_address (after (OscReceive_delAddress r (Single p))) = remove1 p (r_address r)) \<and>
         (inv_list l \<and> p \<in> set (l_address l) \<longrightarrow>
            raised (OscListReceive_delAddress l (Single p)) = None \<and>
            l_address (after (OscListReceive_delAddress l (Single p))) = remove1 p (l_address l)) \<and>
         (p \<notin> set (r_address r) \<and> call_ok (AddAddress (Single p) mul add) \<longrightarrow>
            raised (OscReceive_addAddress r (Single p) mul add) = None \<and>
            r_address (after (OscReceive_addAddress r (Single p) mul add)) = r_address r @ [p]) \<and>
         (p \<notin> set (l_address l) \<and> call_ok (AddAddress (Single p) mul add) \<longrightarrow>
            raised (OscListReceive_addAddress l (Single p) mul add) = None \<and>
            l_address (after (OscListReceive_addAddress l (Single p) mul add)) =
              l_address l @ [p])"
proof -
  have r: "inv_receive r \<longrightarrow>
            inv_receive (OscReceive_calls cs r) \<and>
            length (r_base_objs (OscReceive_calls cs r)) =
              length (r_address (OscReceive_calls cs r))"
  proof
    assume "inv_receive r"
    then have inv: "inv_receive (OscReceive_calls cs r)"
      using assms by (rule OscReceive_calls_inv)
    then have "length (map rb_address (r_base_objs (OscReceive_calls cs r))) =
        length (r_address (OscReceive_calls cs r))"
      by (simp only: inv_receive_def)
    then show "inv_receive (OscReceive_calls cs r) \<and>
            length (r_base_objs (OscReceive_calls cs r)) =
              length (r_address (OscReceive_calls cs r))"
      using inv by simp
  qed
  have l: "inv_list l \<longrightarrow>
            inv_list (OscListReceive_calls cs l) \<and>
            length (l_base_objs (OscListReceive_calls cs l)) =
              length (l_address (OscListReceive_calls cs l)) *
                nat (l_num (OscListReceive_calls cs l))"
    using assms OscListReceive_calls_inv inv_list_length by blast
  have pr: "prefix (r_address r) (r_address (after (OscReceive_addAddress r path mul add)))"
    by (simp add: OscReceive_addAddress_def Let_def OscReceive_addAddress_loop_prefix)
  have pl: "prefix (l_address l) (l_address (after (OscListReceive_addAddress l path mul add)))"
    by (simp add: OscListReceive_addAddress_def Let_def OscListReceive_addAddress_loop_prefix)
  show ?thesis
    using r l pr pl OscReceive_delAddress_subseq [of r path]
      OscListReceive_delAddress_subseq [of l path]
      OscReceive_delAddress_known [of r p] OscListReceive_delAddress_known [of l p]
      OscReceive_addAddress_new [of p r mul add] OscListReceive_addAddress_new [of p l mul add]
    by simp
qed

theorem address_calls_keep_blocks_witness:
  "r_address (OscReceive_calls
      [AddAddress (Single ''/x'') (IntV 1) (IntV 0), DelAddress (Single ''/pitch'')]
      example_receive) = [''/amp'', ''/x''] \<and>
   map rb_address (r_base_objs (OscReceive_calls
      [AddAddress (Single ''/x'') (IntV 1) (IntV 0), DelAddress (Single ''/pitch'')]
      example_receive)) = [''/amp'', ''/x''] \<and>
   inv_receive (OscReceive_calls
      [AddAddress (Single ''/x'') (IntV 1) (IntV 0), DelAddress (Single ''/pitch'')]
      example_receive) \<and>
   l_address (OscListReceive_calls
      [AddAddress (Single ''/x'') (IntV 1) (IntV 0), DelAddress (Single ''/pitch'')]
      example_list) = [''/amp'', ''/x''] \<and>
   map (\<lambda>obj. (lb_address obj, lb_index obj)) (l_base_objs (OscListReceive_calls
      [AddAddress (Single ''/x'') (IntV 1) (IntV 0), DelAddress (Single ''/pitch'')]
      example_list)) = [(''/amp'', 0), (''/amp'', 1), (''/x'', 0), (''/x'', 1)] \<and>
   inv_list (OscListReceive_calls
      [AddAddress (Single ''/x'') (IntV 1) (IntV 0), DelAddress (Single ''/pitch'')]
      example_list) \<and>
   r_address (after (OscReceive_delAddress example_receive (Single ''/pitch''))) = [''/amp'']"
proof -
  have ok: "list_all call_ok
      [AddAddress (Single ''/x'') (IntV 1) (IntV 0), DelAddress (Single ''/pitch'')]"
    by simp
  have ir: "inv_receive example_receive"
    by (simp add: inv_receive_def example_receive_def)
  have il: "inv_list example_list"
    by (simp add: inv_list_def example_list_def block_def py_range_def upt_rec)
  have pr: "''/pitch'' \<in> set (r_address example_receive)"
    by (simp add: example_receive_def)
  have rem: "remove1 ''/pitch'' (r_address example_receive) = [''/amp'']"
    by (simp add: example_receive_def)
  have ra: "r_address (OscReceive_calls
      [AddAddress (Single ''/x'') (IntV 1) (IntV 0), DelAddress (Single ''/pitch'')]
      example_receive) = [''/amp'', ''/x'']"
    by (simp add: example_receive_def OscReceive_addAddress_def OscReceive_delAddress_def
        OscReceive_base_def wrap_def py_pop_def py_position_def)
  have rb: "map rb_address (r_base_objs (OscReceive_calls
      [AddAddress (Single ''/x'') (IntV 1) (IntV 0), DelAddress (Single ''/pitch'')]
      example_receive)) = [''/amp'', ''/x'']"
    by (simp add: example_receive_def OscReceive_addAddress_def OscReceive_delAddress_def
        OscReceive_base_def wrap_def py_pop_def py_position_def)
  have la: "l_address (OscListReceive_calls
      [AddAddress (Single ''/x'') (IntV 1) (IntV 0), DelAddress (Single ''/pitch'')]
      example_list) = [''/amp'', ''/x'']"
    by (simp add: example_list_def OscListReceive_addAddress_def OscListReceive_delAddress_def
        OscListReceive_base_def wrap_def py_pop_def py_position_def py_range_def py_range2_def
        upt_rec Let_def)
  have lb: "map (\<lambda>obj. (lb_address obj, lb_index obj)) (l_base_objs (OscListReceive_calls
      [AddAddress (Single ''/x'') (IntV 1) (IntV 0), DelAddress (Single ''/pitch'')]
      example_list)) = [(''/amp'', 0), (''/amp'', 1), (''/x'', 0), (''/x'', 1)]"
    by (simp add: example_list_def OscListReceive_addAddress_def OscListReceive_delAddress_def
        OscListReceive_base_def wrap_def py_pop_def py_position_def py_range_def py_range2_def
        upt_rec Let_def)
  show ?thesis
    using address_calls_keep_blocks [OF ok, where r = example_receive and l = example_list
        and p = "''/pitch''"] ir il pr rem ra rb la lb
    by simp
qed

section \<open>Indexing by address and by ordinal\<close>

text \<open>
  The constructor builds at least \<open>num\<close> stream objects for each address, and \<open>addAddress\<close>
  and \<open>delAddress\<close> keep it so.
\<close>

lemma traverse_length: "traverse f xs = Inr ys \<Longrightarrow> length ys = length xs"
  by (induction xs arbitrary: ys) (auto split: sum.splits)

lemma OscListReceive_init_streams:
  assumes "OscListReceive_init port address num mul add = Instance l"
  shows "length (l_address l) * nat (l_num l) \<le> length (l_base_objs l)"
proof -
  obtain n where port: "port = IntV n"
    using assms by (cases port) (simp_all add: OscListReceive_init_def)
  obtain k where num: "num = IntV k"
    using assms port by (cases num) (simp_all add: OscListReceive_init_def)
  let ?a = "convertArgsToLists address"
  let ?lmax = "max (length ?a) (max (length (convertValToList mul)) (length (convertValToList add)))"
  obtain objs where tr: "traverse
      (OscListReceive_base_at ?a (convertValToList mul) (convertValToList add))
      (List.product [0..<?lmax] (py_range k)) = Inr objs"
    and l: "l = \<lparr>l_num = k, l_op_duplicate = k, l_mul = mul, l_add = add, l_address = ?a,
        l_mainReceiver = [Construct_call n ?a (Some k)], l_base_objs = objs\<rparr>"
    using assms port num
    by (auto simp: OscListReceive_init_def Let_def split: sum.splits)
  have "length objs = ?lmax * nat k"
    using traverse_length [OF tr] by (simp add: py_range_def)
  moreover have "length ?a * nat k \<le> ?lmax * nat k"
    by (rule mult_le_mono1) simp
  ultimately show ?thesis
    using l by simp
qed

lemma OscListReceive_addAddress_loop_streams:
  "length (l_address l) * nat (l_num l) \<le> length (l_base_objs l) \<Longrightarrow>
   mul \<noteq> [] \<Longrightarrow> add \<noteq> [] \<Longrightarrow>
   length (l_address (after (OscListReceive_addAddress_loop ps mul add l))) *
     nat (l_num (after (OscListReceive_addAddress_loop ps mul add l))) \<le>
   length (l_base_objs (after (OscListReceive_addAddress_loop ps mul add l)))"
proof (induction ps arbitrary: l)
  case Nil
  then show ?case by simp
next
  case (Cons ip ps)
  obtain i p where ip: "ip = (i, p)" by (cases ip)
  show ?case
  proof (cases "p \<in> set (l_address l)")
    case True
    then show ?thesis using Cons ip by simp
  next
    case False
    let ?objs = "map (\<lambda>j. \<lparr>lb_address = p, lb_index = j, lb_mul = wrapped mul i,
                   lb_add = wrapped add i\<rparr>) (py_range (l_num l))"
    let ?l = "l\<lparr>l_mainReceiver := l_mainReceiver l @ [AddAddress_call p],
               l_address := l_address l @ [p],
               l_base_objs := l_base_objs l @ ?objs\<rparr>"
    have tr: "traverse (OscListReceive_base p mul add i) (py_range (l_num l)) = Inr ?objs"
      using Cons.prems by (intro traverse_Inr) (simp add: OscListReceive_base_wrapped)
    have "length (l_address ?l) * nat (l_num ?l) \<le> length (l_base_objs ?l)"
      using Cons.prems(1) by (simp add: py_range_def)
    then have "length (l_address (after (OscListReceive_addAddress_loop ps mul add ?l))) *
        nat (l_num (after (OscListReceive_addAddress_loop ps mul add ?l))) \<le>
        length (l_base_objs (after (OscListReceive_addAddress_loop ps mul add ?l)))"
      using Cons.IH Cons.prems(2,3) by blast
    then show ?thesis
      using False ip tr by simp
  qed
qed

lemma OscListReceive_delAddress_loop_streams:
  "length (l_address l) * nat (l_num l) \<le> length (l_base_objs l) \<Longrightarrow>
   length (l_address (after (OscListReceive_delAddress_loop inds l))) *
     nat (l_num (after (OscListReceive_delAddress_loop inds l))) \<le>
   length (l_base_objs (after (OscListReceive_delAddress_loop inds l)))"
proof (induction inds arbitrary: l)
  case Nil
  then show ?case by simp
next
  case (Cons ind inds)
  let ?n = "nat (l_num l)"
  show ?case
  proof (cases "ind < length (l_address l)")
    case False
    then show ?thesis using Cons.prems by (simp add: py_pop_nat)
  next
    case True
    let ?l = "l\<lparr>l_address := take ind (l_address l) @ drop (Suc ind) (l_address l),
           l_base_objs := take (ind * ?n) (l_base_objs l) @
             drop (ind * ?n + ?n) (l_base_objs l)\<rparr>"
    have "Suc ind \<le> length (l_address l)" using True by simp
    then have "Suc ind * ?n \<le> length (l_address l) * ?n"
      by (rule mult_le_mono1)
    then have fit: "Suc ind * ?n \<le> length (l_base_objs l)"
      using Cons.prems by linarith
    have pops: "py_pops (l_base_objs l)
        (rev (py_range2 (int ind * l_num l) (int ind * l_num l + l_num l))) =
        (take (ind * ?n) (l_base_objs l) @ drop (ind * ?n + ?n) (l_base_objs l), None)"
      using fit by (rule py_pops_block)
    have la: "length (l_address ?l) = length (l_address l) - 1"
      using True by simp
    have lb: "length (l_base_objs ?l) = length (l_base_objs l) - ?n"
      using fit by simp
    have "(length (l_address l) - 1) * ?n \<le> length (l_base_objs l) - ?n"
      using Cons.prems True by (simp add: diff_mult_distrib)
    then have "length (l_address ?l) * nat (l_num ?l) \<le> length (l_base_objs ?l)"
      using la lb by simp
    then have "length (l_address (after (OscListReceive_delAddress_loop inds ?l))) *
        nat (l_num (after (OscListReceive_delAddress_loop inds ?l))) \<le>
        length (l_base_objs (after (OscListReceive_delAddress_loop inds ?l)))"
      by (rule Cons.IH)
    then show ?thesis
      using True pops by (simp add: py_pop_nat Let_def)
  qed
qed

lemma OscListReceive_calls_streams:
  "length (l_address l) * nat (l_num l) \<le> length (l_base_objs l) \<Longrightarrow>
   list_all call_ok cs \<Longrightarrow>
   length (l_address (OscListReceive_calls cs l)) * nat (l_num (OscListReceive_calls cs l)) \<le>
   length (l_base_objs (OscListReceive_calls cs l))"
proof (induction cs arbitrary: l)
  case Nil
  then show ?case by simp
next
  case (Cons c cs)
  show ?case
  proof (cases c)
    case (AddAddress path mul add)
    let ?l = "after (OscListReceive_addAddress l path mul add)"
    have "length (l_address ?l) * nat (l_num ?l) \<le> length (l_base_objs ?l)"
      using Cons.prems AddAddress
      by (simp add: OscListReceive_addAddress_def Let_def OscListReceive_addAddress_loop_streams)
    then show ?thesis
      using Cons.IH Cons.prems(2) AddAddress by simp
  next
    case (DelAddress path)
    let ?l1 = "l\<lparr>l_mainReceiver := l_mainReceiver l @ [DelAddress_call (convertArgsToLists path)]\<rparr>"
    let ?l = "after (OscListReceive_delAddress l path)"
    have "length (l_address ?l1) * nat (l_num ?l1) \<le> length (l_base_objs ?l1)"
      using Cons.prems(1) by simp
    then have "length (l_address (after (OscListReceive_delAddress_loop inds ?l1))) *
        nat (l_num (after (OscListReceive_delAddress_loop inds ?l1))) \<le>
        length (l_base_objs (after (OscListReceive_delAddress_loop inds ?l1)))" for inds
      by (rule OscListReceive_delAddress_loop_streams)
    then have "length (l_address ?l) * nat (l_num ?l) \<le> length (l_base_objs ?l)"
      using Cons.prems(1)
      by (simp add: OscListReceive_delAddress_def Let_def split: sum.splits)
    then show ?thesis
      using Cons.IH Cons.prems(2) DelAddress by simp
  qed
qed

text \<open>
  So the two lookups agree, and \<open>get\<close> reads the same window, on every object of width
  \<open>num \<ge> 1\<close> that the constructor and any calls of \<open>addAddress\<close> and \<open>delAddress\<close> build.
\<close>

lemma OscListReceive_window_constructed:
  assumes "OscListReceive_init port address num mul add = Instance l0"
    and "list_all call_ok cs" and "l = OscListReceive_calls cs l0"
    and "0 < l_num l" and "py_index (l_address l) A = Inr k"
  shows "OscListReceive_getitem l (Name A) =
           Reply (Some (take (nat (l_num l)) (drop (k * nat (l_num l)) (l_base_objs l)))) [] \<and>
         length (take (nat (l_num l)) (drop (k * nat (l_num l)) (l_base_objs l))) =
           nat (l_num l) \<and>
         (\<forall>j < nat (l_num l).
            take (nat (l_num l)) (drop (k * nat (l_num l)) (l_base_objs l)) ! j =
            l_base_objs l ! (k * nat (l_num l) + j)) \<and>
         OscListReceive_getitem l (Ordinal (int k)) = OscListReceive_getitem l (Name A) \<and>
         OscListReceive_get getValue l (Some A) False =
           Reply (ListV (map (\<lambda>obj. FloatV (getValue obj))
             (take (nat (l_num l)) (drop (k * nat (l_num l)) (l_base_objs l))))) []"
proof -
  have "length (l_address l0) * nat (l_num l0) \<le> length (l_base_objs l0)"
    using assms(1) by (rule OscListReceive_init_streams)
  then have "length (l_address l) * nat (l_num l) \<le> length (l_base_objs l)"
    unfolding assms(3) using assms(2) by (rule OscListReceive_calls_streams)
  then show ?thesis
    using assms(4,5) by (rule OscListReceive_window_of_address)
qed

lemma OscListReceive_window_example:
  "OscListReceive_getitem example_list (Name ''/amp'') =
     Reply (Some [\<lparr>lb_address = ''/amp'', lb_index = 0, lb_mul = IntV 1, lb_add = IntV 0\<rparr>,
                  \<lparr>lb_address = ''/amp'', lb_index = 1, lb_mul = IntV 1, lb_add = IntV 0\<rparr>]) [] \<and>
   OscListReceive_getitem example_list (Ordinal 1) =
     OscListReceive_getitem example_list (Name ''/amp'') \<and>
   OscListReceive_get (\<lambda>obj. real_of_int (lb_index obj)) example_list (Some ''/amp'') False =
     Reply (ListV [FloatV 0, FloatV 1]) []"
  using OscListReceive_window_constructed [OF example_list_constructed, where cs = "[]"
      and l = example_list and A = "''/amp''" and k = 1
      and getValue = "\<lambda>obj. real_of_int (lb_index obj)"]
  by (simp add: example_list_def)

text \<open>
  C6. For an address \<open>A\<close> registered at position \<open>k\<close>, indexing by \<open>A\<close> returns the \<open>num\<close>
  streams at the flat positions \<open>k * num, ..., k * num + num - 1\<close>, indexing by the ordinal
  \<open>k\<close> is to return the same window, and \<open>get(A)\<close> the \<open>num\<close> values of those streams. The
  ordinal is compared with the number of stream objects, not with the number of
  addresses. The receiver built with \<open>num = 0\<close> has one address and no stream object:
  indexing by the address returns the empty window and \<open>get\<close> the empty list, while indexing
  by the ordinal \<open>0\<close> prints \<open>'i' too large!\<close> and returns \<open>None\<close>.
\<close>

theorem OscListReceive_width_zero_ordinal:
  "OscListReceive_init (IntV 10001) (Single ''/pitch'') (IntV 0) (IntV 1) (IntV 0) =
     Instance example_list0 \<and>
   py_index (l_address example_list0) ''/pitch'' = Inr 0 \<and>
   OscListReceive_getitem example_list0 (Name ''/pitch'') = Reply (Some []) [] \<and>
   OscListReceive_get getValue example_list0 (Some ''/pitch'') False = Reply (ListV []) [] \<and>
   OscListReceive_getitem example_list0 (Ordinal 0) = Reply None [too_large_msg]"
  by (simp add: OscListReceive_init_def example_list0_def OscListReceive_getitem_def
      OscListReceive_get_def OscListReceive_window_def
      py_range_def py_slice_def slice_bound_def Let_def)

theorem OscListReceive_width_zero_ordinal_witness:
  "returned (OscListReceive_getitem example_list0 (Name ''/pitch'')) = Some [] \<and>
   returned (OscListReceive_getitem example_list0 (Ordinal 0)) = None \<and>
   said (OscListReceive_getitem example_list0 (Ordinal 0)) = [too_large_msg]"
  using OscListReceive_width_zero_ordinal [where getValue = "\<lambda>obj. 0"] by simp

end
